theory Spec2Isabelle
  imports Complex_Main "HOL-Library.Sublist"
begin

section \<open>Python strings\<close>

text \<open>
  A Python \<open>str\<close> is a sequence of Unicode code points and \<open>len\<close> counts code points, so
  a string is modelled as a list of code points (natural numbers), not as a list of bytes.
  \<open>py_str\<close> embeds an ASCII literal.
\<close>

type_synonym codepoint = nat
type_synonym pystr = "codepoint list"

definition py_str :: "string \<Rightarrow> pystr" where
  "py_str s = map of_char s"

definition nn :: pystr where
  \<comment> \<open>the literal \<open>"\n\n"\<close>\<close>
  "nn = [10, 10]"

definition isspace :: "codepoint \<Rightarrow> bool" where
  \<comment> \<open>the characters \<open>str.isspace\<close> accepts, which are the ones \<open>str.strip()\<close> removes\<close>
  "isspace c \<longleftrightarrow>
     (9 \<le> c \<and> c \<le> 13) \<or> (28 \<le> c \<and> c \<le> 32) \<or> c = 133 \<or> c = 160 \<or> c = 5760 \<or>
     (8192 \<le> c \<and> c \<le> 8202) \<or> c = 8232 \<or> c = 8233 \<or> c = 8239 \<or> c = 8287 \<or> c = 12288"

definition strip :: "pystr \<Rightarrow> pystr" where
  \<comment> \<open>\<open>s.strip()\<close>: leading and trailing whitespace removed\<close>
  "strip s = rev (dropWhile isspace (rev (dropWhile isspace s)))"

function split_acc :: "pystr \<Rightarrow> pystr \<Rightarrow> pystr \<Rightarrow> pystr list" where
  "split_acc sep piece s =
     (if s = [] then [piece]
      else if sep \<noteq> [] \<and> prefix sep s then piece # split_acc sep [] (drop (length sep) s)
      else split_acc sep (piece @ [hd s]) (tl s))"
  by pat_completeness auto
termination
  by (relation "measure (\<lambda>(sep, piece, s). length s)") auto

declare split_acc.simps [simp del]

definition split_str :: "pystr \<Rightarrow> pystr \<Rightarrow> pystr list" where
  \<comment> \<open>\<open>s.split(sep)\<close> for a non-empty separator: cut at each leftmost occurrence, scanning
      left to right; the pieces between the cuts, empty ones included\<close>
  "split_str s sep = split_acc sep [] s"

definition join_str :: "pystr \<Rightarrow> pystr list \<Rightarrow> pystr" where
  \<comment> \<open>\<open>sep.join(parts)\<close>\<close>
  "join_str sep parts = (case parts of [] \<Rightarrow> [] | p # ps \<Rightarrow> p @ concat (map (\<lambda>q. sep @ q) ps))"

section \<open>Chunker (scripts/ingest.py)\<close>

record chunk =
  chunk_text :: pystr
  chunk_source :: pystr

definition paragraphs_of :: "pystr \<Rightarrow> pystr list" where
  \<comment> \<open>\<open>[p.strip() for p in text.split("\n\n") if p.strip()]\<close>\<close>
  "paragraphs_of txt = map strip (filter (\<lambda>p. strip p \<noteq> []) (split_str txt nn))"

definition emit :: "pystr \<Rightarrow> pystr \<Rightarrow> chunk list \<Rightarrow> chunk list" where
  \<comment> \<open>\<open>if current_chunk: chunks.append({"text": current_chunk.strip(),
      "metadata": {"source": source_name}})\<close>\<close>
  "emit source_name current_chunk chunks =
     (if current_chunk \<noteq> []
      then chunks @ [\<lparr>chunk_text = strip current_chunk, chunk_source = source_name\<rparr>]
      else chunks)"

fun pack_loop :: "int \<Rightarrow> pystr \<Rightarrow> pystr list \<Rightarrow> pystr \<times> chunk list \<Rightarrow> pystr \<times> chunk list" where
  "pack_loop chunk_size source_name [] st = st"
| "pack_loop chunk_size source_name (paragraph # rest) (current_chunk, chunks) =
     (if int (length current_chunk) + int (length paragraph) + 2 \<le> chunk_size
      then pack_loop chunk_size source_name rest (current_chunk @ paragraph @ nn, chunks)
      else pack_loop chunk_size source_name rest
             (paragraph @ nn, emit source_name current_chunk chunks))"

definition split_text_into_chunks :: "pystr \<Rightarrow> pystr \<Rightarrow> int \<Rightarrow> int \<Rightarrow> chunk list" where
  "split_text_into_chunks txt source_name chunk_size chunk_overlap =
     (let paragraphs = paragraphs_of txt;
          (current_chunk, chunks) = pack_loop chunk_size source_name paragraphs ([], [])
      in emit source_name current_chunk chunks)"

text \<open>
  The packing as the specification words it: paragraphs are packed greedily into groups,
  a paragraph joining the current group when the group's text with the paragraph and a
  2-character separator does not exceed \<open>chunk_size\<close>, and starting a new group
  otherwise. \<open>packed_len\<close> is the length of a group's text with a separator after each
  paragraph.
\<close>

definition packed_len :: "pystr list \<Rightarrow> int" where
  "packed_len g = (\<Sum>p\<leftarrow>g. int (length p) + 2)"

definition close_group :: "pystr list \<Rightarrow> pystr list list" where
  "close_group g = (if g = [] then [] else [g])"

fun spec_pack :: "int \<Rightarrow> pystr list \<Rightarrow> pystr list \<Rightarrow> pystr list list" where
  "spec_pack chunk_size cur [] = close_group cur"
| "spec_pack chunk_size cur (p # ps) =
     (if packed_len cur + int (length p) + 2 \<le> chunk_size
      then spec_pack chunk_size (cur @ [p]) ps
      else close_group cur @ spec_pack chunk_size [p] ps)"

definition clean :: "pystr \<Rightarrow> bool" where
  \<comment> \<open>a stripped, non-empty paragraph\<close>
  "clean p \<longleftrightarrow> p \<noteq> [] \<and> \<not> isspace (hd p) \<and> \<not> isspace (last p)"

text \<open>Auxiliary notions for the proofs about the chunker.\<close>

definition packed_text :: "pystr list \<Rightarrow> pystr" where
  "packed_text g = concat (map (\<lambda>p. p @ nn) g)"

definition mk_chunk :: "pystr \<Rightarrow> pystr list \<Rightarrow> chunk" where
  "mk_chunk source_name g = \<lparr>chunk_text = join_str nn g, chunk_source = source_name\<rparr>"

fun nn_free :: "pystr \<Rightarrow> bool" where
  "nn_free (a # b # r) \<longleftrightarrow> \<not> (a = 10 \<and> b = 10) \<and> nn_free (b # r)"
| "nn_free _ \<longleftrightarrow> True"

section \<open>Errors and collaborators\<close>

text \<open>
  A raised exception is a value: every function that can raise returns \<open>py_error + 'a\<close>.
  Exceptions raised inside an external collaborator (the LLM service, the PDF reader)
  are opaque and carry a tag only.
\<close>

datatype json_error =
    ExpectingValue | ExtraData | ExpectingPropertyName | ExpectingColon | ExpectingComma
  | UnterminatedString | InvalidControlCharacter | InvalidEscape | InvalidUnicodeEscape
  | UnexpectedBOM | NestingTooDeep

datatype field_error = Missing pystr | FloatType pystr | FloatParsing pystr | StringType pystr

datatype py_error =
    PlainException pystr  \<comment> \<open>\<open>Exception(message)\<close> with a fixed message\<close>
  | ExternalError nat  \<comment> \<open>an exception raised inside an external collaborator\<close>
  | StoreUnavailable  \<comment> \<open>the vector store cannot be reached\<close>
  | ValueError pystr
  | TypeError pystr
  | DuplicateIDError
  | UnicodeEncodeError
  | InvalidJSONResponse json_error
      \<comment> \<open>\<open>Exception(f"Invalid JSON response from LLM: {e}")\<close>\<close>
  | SchemaMismatch "field_error list"
      \<comment> \<open>\<open>Exception(f"LLM output schema mismatch: {e}")\<close>\<close>
  | HTTPException int pystr "py_error option"
      \<comment> \<open>status code, the fixed text of \<open>detail\<close>, the exception it quotes\<close>

section \<open>Vector index\<close>

text \<open>
  The vector store is the ChromaDB library, which is not part of the repository. Its three
  operations the code calls are modelled on a list of stored chunks.
\<close>

record entry =
  entry_id :: pystr
  entry_text :: pystr
  entry_source :: pystr

record chroma_collection =
  reachable :: bool
  distance :: "pystr \<Rightarrow> pystr \<Rightarrow> nat"
    \<comment> \<open>distance between the embeddings of a query text and of a stored text\<close>
  entries :: "entry list"

fun upsert_entry :: "entry \<Rightarrow> entry list \<Rightarrow> entry list" where
  "upsert_entry e [] = [e]"
| "upsert_entry e (x # xs) = (if entry_id x = entry_id e then e # xs else x # upsert_entry e xs)"

definition collection_upsert ::
  "chroma_collection \<Rightarrow> pystr list \<Rightarrow> pystr list \<Rightarrow> pystr list \<Rightarrow> py_error + chroma_collection" where
  \<comment> \<open>Modelled from the spec: \<open>collection.upsert(documents, metadatas, ids)\<close> of the vector
      store. "Inserts or overwrites chunks by id"; "if the backing store is unreachable,
      all operations fail with a StoreUnavailable error". The library's own input
      validation (a batch is not empty, its ids are pairwise different) is kept as the
      two refusals before the write.\<close>
  "collection_upsert c ids documents sources =
     (if \<not> reachable c then Inl StoreUnavailable
      else if ids = [] then Inl (ValueError (py_str ''Expected IDs to be a non-empty list''))
      else if \<not> distinct ids then Inl DuplicateIDError
      else Inr (c\<lparr>entries :=
             fold (\<lambda>(i, d, s). upsert_entry \<lparr>entry_id = i, entry_text = d, entry_source = s\<rparr>)
               (zip ids (zip documents sources)) (entries c)\<rparr>))"

record query_result =
  documents :: "pystr list list option"
    \<comment> \<open>\<open>results.get("documents")\<close>: one list of texts per query text\<close>

definition collection_query ::
  "chroma_collection \<Rightarrow> pystr \<Rightarrow> int \<Rightarrow> pystr list \<Rightarrow> py_error + query_result" where
  \<comment> \<open>Modelled from the spec: \<open>collection.query(query_texts=[q], n_results=k,
      where={"source": {"$in": sources}})\<close> of the vector store. "Restricts candidate set
      to chunks whose source is in sources, returns up to k texts ordered by decreasing
      similarity. Returns empty sequence (never an error) when no chunks match the filter
      or the index is empty"; an unreachable store fails with StoreUnavailable.\<close>
  "collection_query c q k sources =
     (if \<not> reachable c then Inl StoreUnavailable
      else Inr \<lparr>documents = Some
        [take (nat k) (map entry_text
           (sort_key (\<lambda>e. distance c q (entry_text e))
              (filter (\<lambda>e. entry_source e \<in> set sources) (entries c))))]\<rparr>)"

section \<open>Stage outputs, prompts and the world\<close>

text \<open>
  A Python \<open>float\<close> is carried as the exact value of the decimal literal it was read from
  (or one of the three special values); rounding to a binary64 is not modelled.
\<close>

datatype pyfloat = Finite rat | PosInf | NegInf | NaN

record CvEvaluationOutput =
  cv_match_rate :: pyfloat
  cv_feedback :: pystr

record ProjectEvaluationOutput =
  project_score :: pyfloat
  project_feedback :: pystr

record FinalSummaryOutput =
  overall_summary :: pystr

record EvaluationResultData =
  result_cv_match_rate :: pyfloat
  result_cv_feedback :: pystr
  result_project_score :: pyfloat
  result_project_feedback :: pystr
  result_overall_summary :: pystr

text \<open>
  A prompt is the template that built it together with the values the template embeds;
  the fixed wording of the templates is left out.
\<close>

datatype prompt =
    CvPrompt pystr pystr pystr  \<comment> \<open>\<open>create_cv_prompt(cv_text, jd_context, rubric_context)\<close>\<close>
  | ProjectPrompt pystr pystr pystr
      \<comment> \<open>\<open>create_project_prompt(report_text, brief_context, rubric_context)\<close>\<close>
  | SummaryPrompt CvEvaluationOutput ProjectEvaluationOutput
      \<comment> \<open>\<open>create_summary_prompt(cv_eval, project_eval)\<close>\<close>

definition create_cv_prompt :: "pystr \<Rightarrow> pystr \<Rightarrow> pystr \<Rightarrow> prompt" where
  "create_cv_prompt cv_text jd_context rubric_context = CvPrompt cv_text jd_context rubric_context"

definition create_project_prompt :: "pystr \<Rightarrow> pystr \<Rightarrow> pystr \<Rightarrow> prompt" where
  "create_project_prompt report_text brief_context rubric_context =
     ProjectPrompt report_text brief_context rubric_context"

definition create_summary_prompt :: "CvEvaluationOutput \<Rightarrow> ProjectEvaluationOutput \<Rightarrow> prompt" where
  "create_summary_prompt cv_eval project_eval = SummaryPrompt cv_eval project_eval"

text \<open>
  The world records every call the code makes to an external collaborator, in order, and
  counts the calls to the LLM service. The LLM service is a function from the number of
  calls made before and the prompt to what the call does: raise, or return a text.
\<close>

datatype event =
    EvParsePdf pystr  \<comment> \<open>the PDF reader opens a path\<close>
  | EvQuery pystr "pystr list" int  \<comment> \<open>a similarity query: text, source filter, k\<close>
  | EvGenerate prompt  \<comment> \<open>one call of \<open>llm_model.generate_content\<close>\<close>
  | EvSleep int  \<comment> \<open>\<open>time.sleep(delay)\<close>\<close>

record world =
  llm_calls :: nat
  trace :: "event list"

type_synonym llm = "nat \<Rightarrow> prompt \<Rightarrow> py_error + pystr"

definition log_event :: "event \<Rightarrow> world \<Rightarrow> world" where
  "log_event ev w = w\<lparr>trace := trace w @ [ev]\<rparr>"

section \<open>Context retriever (app/services.py)\<close>

definition query_rag ::
  "chroma_collection option \<Rightarrow> pystr \<Rightarrow> pystr list \<Rightarrow> int \<Rightarrow> world \<Rightarrow> (py_error + pystr) \<times> world" where
  \<comment> \<open>The result of \<open>collection.query\<close> is always a non-empty dict, so the first test of the
      source (\<open>not results or not isinstance(results, dict)\<close>) has no branch here.\<close>
  "query_rag coll query_text sources n_results w =
     (case coll of
        None \<Rightarrow> (Inl (PlainException (py_str ''Koneksi ChromaDB tidak tersedia.'')), w)
      | Some c \<Rightarrow>
          (let w' = log_event (EvQuery query_text sources n_results) w in
           case collection_query c query_text n_results sources of
             Inl e \<Rightarrow> (Inl e, w')
           | Inr results \<Rightarrow>
               (case documents results of
                  None \<Rightarrow> (Inr [], w')
                | Some docs \<Rightarrow>
                    (case docs of
                       [] \<Rightarrow> (Inr [], w')
                     | d # _ \<Rightarrow>
                         if d = [] then (Inr [], w')
                         else (Inr (join_str (py_str ''\<newline>---\<newline>'') d), w')))))"

section \<open>LLM client (app/services.py)\<close>

definition sleep :: "int \<Rightarrow> world \<Rightarrow> (py_error + unit) \<times> world" where
  \<comment> \<open>\<open>time.sleep(delay)\<close>, which refuses a negative length\<close>
  "sleep delay w =
     (if delay < 0 then (Inl (ValueError (py_str ''sleep length must be non-negative'')), w)
      else (Inr (), log_event (EvSleep delay) w))"

definition generate_content :: "llm \<Rightarrow> prompt \<Rightarrow> world \<Rightarrow> (py_error + pystr) \<times> world" where
  \<comment> \<open>\<open>llm_model.generate_content(prompt)\<close> followed by \<open>response.text\<close>\<close>
  "generate_content model p w =
     (model (llm_calls w) p, log_event (EvGenerate p) (w\<lparr>llm_calls := Suc (llm_calls w)\<rparr>))"

fun retry_loop ::
  "llm \<Rightarrow> prompt \<Rightarrow> int \<Rightarrow> int \<Rightarrow> int list \<Rightarrow> world \<Rightarrow> (py_error + pystr) \<times> world" where
  "retry_loop model p retries delay [] w = (Inr [], w)"
| "retry_loop model p retries delay (attempt # rest) w =
     (case generate_content model p w of
        (Inr response_text, w1) \<Rightarrow> (Inr response_text, w1)
      | (Inl e, w1) \<Rightarrow>
          if attempt < retries - 1 then
            (case sleep delay w1 of
               (Inl e', w2) \<Rightarrow> (Inl e', w2)
             | (Inr _, w2) \<Rightarrow> retry_loop model p retries delay rest w2)
          else (Inl e, w1))"

definition call_gemini_with_retry ::
  "llm option \<Rightarrow> prompt \<Rightarrow> int \<Rightarrow> int \<Rightarrow> world \<Rightarrow> (py_error + pystr) \<times> world" where
  \<comment> \<open>\<open>for attempt in range(retries)\<close> runs over \<open>[0..retries - 1]\<close>; falling out of the loop
      returns the empty string\<close>
  "call_gemini_with_retry llm_model p retries delay w =
     (case llm_model of
        None \<Rightarrow> (Inl (PlainException (py_str ''Model LLM (Gemini) tidak terinisialisasi.'')), w)
      | Some model \<Rightarrow> retry_loop model p retries delay [0..retries - 1] w)"

section \<open>JSON decoding (json.loads)\<close>

text \<open>
  \<open>json.loads\<close> of the standard library, as its scanner reads a text: whitespace is blank,
  tab, line feed and carriage return; strings are read in strict mode; the constants
  \<open>NaN\<close>, \<open>Infinity\<close> and \<open>-Infinity\<close> are accepted; an object becomes a \<open>dict\<close>, in which a
  repeated key keeps its first position and its last value. Error positions are left out,
  and so is the interpreter's limit on nesting depth.
\<close>

datatype json =
    JNull | JBool bool | JInt int | JFloat pyfloat | JString pystr
  | JArray "json list" | JObject "(pystr \<times> json) list"

definition json_ws :: "codepoint \<Rightarrow> bool" where
  "json_ws c \<longleftrightarrow> c = 32 \<or> c = 9 \<or> c = 10 \<or> c = 13"

definition skip_ws :: "pystr \<Rightarrow> pystr" where
  "skip_ws s = dropWhile json_ws s"

definition is_digit :: "codepoint \<Rightarrow> bool" where
  "is_digit c \<longleftrightarrow> 48 \<le> c \<and> c \<le> 57"

definition digits_value :: "pystr \<Rightarrow> nat" where
  "digits_value ds = foldl (\<lambda>a c. 10 * a + (c - 48)) 0 ds"

definition hex_value :: "codepoint \<Rightarrow> nat option" where
  "hex_value c =
     (if 48 \<le> c \<and> c \<le> 57 then Some (c - 48)
      else if 65 \<le> c \<and> c \<le> 70 then Some (c - 55)
      else if 97 \<le> c \<and> c \<le> 102 then Some (c - 87)
      else None)"

definition decode_uXXXX :: "pystr \<Rightarrow> nat option" where
  \<comment> \<open>the four hexadecimal digits after \<open>\u\<close>\<close>
  "decode_uXXXX s =
     (case map hex_value (take 4 s) of
        [Some a, Some b, Some c, Some d] \<Rightarrow> Some (((a * 16 + b) * 16 + c) * 16 + d)
      | _ \<Rightarrow> None)"

definition backslash :: "codepoint \<Rightarrow> codepoint option" where
  \<comment> \<open>the table \<open>BACKSLASH\<close> of the decoder\<close>
  "backslash c =
     (if c = 34 then Some 34 else if c = 92 then Some 92 else if c = 47 then Some 47
      else if c = 98 then Some 8 else if c = 102 then Some 12 else if c = 110 then Some 10
      else if c = 114 then Some 13 else if c = 116 then Some 9 else None)"

fun scanstring :: "pystr \<Rightarrow> pystr \<Rightarrow> json_error + pystr \<times> pystr" where
  "scanstring acc [] = Inl UnterminatedString"
| "scanstring acc (c # cs) =
     (if c = 34 then Inr (acc, cs)
      else if c = 92 then
        (case cs of
           [] \<Rightarrow> Inl UnterminatedString
         | esc # cs' \<Rightarrow>
             if esc = 117 then
               (case decode_uXXXX cs' of
                  None \<Rightarrow> Inl InvalidUnicodeEscape
                | Some uni \<Rightarrow>
                    if 55296 \<le> uni \<and> uni \<le> 56319 \<and> take 2 (drop 4 cs') = [92, 117] then
                      (case decode_uXXXX (drop 6 cs') of
                         None \<Rightarrow> Inl InvalidUnicodeEscape
                       | Some uni2 \<Rightarrow>
                           if 56320 \<le> uni2 \<and> uni2 \<le> 57343
                           then scanstring (acc @ [65536 + (uni - 55296) * 1024 + (uni2 - 56320)])
                                  (drop 10 cs')
                           else scanstring (acc @ [uni]) (drop 4 cs'))
                    else scanstring (acc @ [uni]) (drop 4 cs'))
             else
               (case backslash esc of
                  None \<Rightarrow> Inl InvalidEscape
                | Some ch \<Rightarrow> scanstring (acc @ [ch]) cs'))
      else if c < 32 then Inl InvalidControlCharacter
      else scanstring (acc @ [c]) cs)"

definition scan_exp :: "pystr \<Rightarrow> (int \<times> pystr) option" where
  \<comment> \<open>\<open>[eE][-+]?\d+\<close> at the head of the text: the exponent and the rest\<close>
  "scan_exp s =
     (case s of
        [] \<Rightarrow> None
      | e # r \<Rightarrow>
          if e = 101 \<or> e = 69 then
            (case r of
               [] \<Rightarrow> None
             | sg # r' \<Rightarrow>
                 if sg = 43 \<or> sg = 45 then
                   (case r' of
                      [] \<Rightarrow> None
                    | d # _ \<Rightarrow>
                        if is_digit d
                        then Some ((if sg = 45 then - 1 else 1) * int (digits_value (takeWhile is_digit r')),
                                   dropWhile is_digit r')
                        else None)
                 else if is_digit sg
                 then Some (int (digits_value (takeWhile is_digit r)), dropWhile is_digit r)
                 else None)
          else None)"

definition scan_frac :: "pystr \<Rightarrow> (pystr \<times> pystr) option" where
  \<comment> \<open>\<open>\.\d+\<close> at the head of the text: the digits and the rest\<close>
  "scan_frac s =
     (case s of
        c # d # r \<Rightarrow>
          if c = 46 \<and> is_digit d then Some (takeWhile is_digit (d # r), dropWhile is_digit (d # r))
          else None
      | _ \<Rightarrow> None)"

definition scan_int :: "pystr \<Rightarrow> (pystr \<times> pystr) option" where
  \<comment> \<open>\<open>0|[1-9]\d*\<close> at the head of the text\<close>
  "scan_int s =
     (case s of
        [] \<Rightarrow> None
      | c # r \<Rightarrow>
          if c = 48 then Some ([c], r)
          else if 49 \<le> c \<and> c \<le> 57 then Some (takeWhile is_digit s, dropWhile is_digit s)
          else None)"

definition decimal_value :: "bool \<Rightarrow> pystr \<Rightarrow> int \<Rightarrow> rat" where
  \<comment> \<open>the value of \<open>digits\<close> times ten to the \<open>scale\<close>, negated when \<open>neg\<close>\<close>
  "decimal_value neg digits scale =
     (let m = (if neg then - 1 else 1) * of_nat (digits_value digits)
      in if 0 \<le> scale then m * 10 ^ nat scale else m / 10 ^ nat (- scale))"

definition match_number :: "pystr \<Rightarrow> (json \<times> pystr) option" where
  \<comment> \<open>\<open>NUMBER_RE\<close>: \<open>(-?(?:0|[1-9]\d*))(\.\d+)?([eE][-+]?\d+)?\<close>; an integer literal becomes
      an \<open>int\<close>, a literal with a fraction or an exponent a \<open>float\<close>\<close>
  "match_number s =
     (let neg = (s \<noteq> [] \<and> hd s = 45);
          s1 = (if neg then tl s else s)
      in case scan_int s1 of
           None \<Rightarrow> None
         | Some (int_digits, s2) \<Rightarrow>
             (case scan_frac s2 of
                None \<Rightarrow>
                  (case scan_exp s2 of
                     None \<Rightarrow> Some (JInt ((if neg then - 1 else 1) * int (digits_value int_digits)), s2)
                   | Some (e, s4) \<Rightarrow> Some (JFloat (Finite (decimal_value neg int_digits e)), s4))
              | Some (frac_digits, s3) \<Rightarrow>
                  (case scan_exp s3 of
                     None \<Rightarrow>
                       Some (JFloat (Finite (decimal_value neg (int_digits @ frac_digits) (- int (length frac_digits)))), s3)
                   | Some (e, s4) \<Rightarrow>
                       Some (JFloat (Finite (decimal_value neg (int_digits @ frac_digits) (e - int (length frac_digits)))),
                             s4))))"

fun dict_set :: "(pystr \<times> json) list \<Rightarrow> pystr \<Rightarrow> json \<Rightarrow> (pystr \<times> json) list" where
  "dict_set [] k v = [(k, v)]"
| "dict_set ((k', v') # d) k v = (if k' = k then (k', v) # d else (k', v') # dict_set d k v)"

definition py_dict :: "(pystr \<times> json) list \<Rightarrow> (pystr \<times> json) list" where
  \<comment> \<open>\<open>dict(pairs)\<close>\<close>
  "py_dict pairs = foldl (\<lambda>d (k, v). dict_set d k v) [] pairs"

text \<open>
  The scanner calls itself for the values inside an object or an array. The first argument
  bounds the number of nested calls; \<open>json_loads\<close> starts with more than twice the length
  of the text, and two nested calls read at least one character.
\<close>

fun scan_once :: "nat \<Rightarrow> pystr \<Rightarrow> json_error + json \<times> pystr"
  and object_pairs ::
    "nat \<Rightarrow> (pystr \<times> json) list \<Rightarrow> pystr \<Rightarrow> json_error + (pystr \<times> json) list \<times> pystr"
  and array_values :: "nat \<Rightarrow> json list \<Rightarrow> pystr \<Rightarrow> json_error + json list \<times> pystr"
where
  "scan_once 0 s = Inl NestingTooDeep"
| "scan_once (Suc n) s =
     (case s of
        [] \<Rightarrow> Inl ExpectingValue
      | c # cs \<Rightarrow>
          if c = 34 then
            (case scanstring [] cs of
               Inl e \<Rightarrow> Inl e
             | Inr (str, rest) \<Rightarrow> Inr (JString str, rest))
          else if c = 123 then
            (case skip_ws cs of
               [] \<Rightarrow> Inl ExpectingPropertyName
             | d # r \<Rightarrow>
                 if d = 125 then Inr (JObject [], r)
                 else if d = 34 then
                   (case object_pairs n [] r of
                      Inl e \<Rightarrow> Inl e
                    | Inr (pairs, rest) \<Rightarrow> Inr (JObject (py_dict pairs), rest))
                 else Inl ExpectingPropertyName)
          else if c = 91 then
            (case skip_ws cs of
               [] \<Rightarrow> Inl ExpectingValue
             | d # r \<Rightarrow>
                 if d = 93 then Inr (JArray [], r)
                 else
                   (case array_values n [] (d # r) of
                      Inl e \<Rightarrow> Inl e
                    | Inr (vs, rest) \<Rightarrow> Inr (JArray vs, rest)))
          else if take 4 s = py_str ''null'' then Inr (JNull, drop 4 s)
          else if take 4 s = py_str ''true'' then Inr (JBool True, drop 4 s)
          else if take 5 s = py_str ''false'' then Inr (JBool False, drop 5 s)
          else
            (case match_number s of
               Some r \<Rightarrow> Inr r
             | None \<Rightarrow>
                 if take 3 s = py_str ''NaN'' then Inr (JFloat NaN, drop 3 s)
                 else if take 8 s = py_str ''Infinity'' then Inr (JFloat PosInf, drop 8 s)
                 else if take 9 s = py_str ''-Infinity'' then Inr (JFloat NegInf, drop 9 s)
                 else Inl ExpectingValue))"
| "object_pairs 0 pairs s = Inl NestingTooDeep"
| "object_pairs (Suc n) pairs s =
     (case scanstring [] s of
        Inl e \<Rightarrow> Inl e
      | Inr (key, s1) \<Rightarrow>
          (case skip_ws s1 of
             [] \<Rightarrow> Inl ExpectingColon
           | c # s2 \<Rightarrow>
               if c \<noteq> 58 then Inl ExpectingColon
               else
                 (case scan_once n (skip_ws s2) of
                    Inl e \<Rightarrow> Inl e
                  | Inr (v, s3) \<Rightarrow>
                      (case skip_ws s3 of
                         [] \<Rightarrow> Inl ExpectingComma
                       | d # s4 \<Rightarrow>
                           if d = 125 then Inr (pairs @ [(key, v)], s4)
                           else if d \<noteq> 44 then Inl ExpectingComma
                           else
                             (case skip_ws s4 of
                                [] \<Rightarrow> Inl ExpectingPropertyName
                              | q # s5 \<Rightarrow>
                                  if q = 34 then object_pairs n (pairs @ [(key, v)]) s5
                                  else Inl ExpectingPropertyName)))))"
| "array_values 0 vs s = Inl NestingTooDeep"
| "array_values (Suc n) vs s =
     (case scan_once n s of
        Inl e \<Rightarrow> Inl e
      | Inr (v, s1) \<Rightarrow>
          (case skip_ws s1 of
             [] \<Rightarrow> Inl ExpectingComma
           | d # s2 \<Rightarrow>
               if d = 93 then Inr (vs @ [v], s2)
               else if d \<noteq> 44 then Inl ExpectingComma
               else array_values n (vs @ [v]) (skip_ws s2)))"

fun fuel_of :: "pystr \<Rightarrow> nat" where
  \<comment> \<open>two nested calls for each character, and one to start\<close>
  "fuel_of [] = 1"
| "fuel_of (c # cs) = Suc (Suc (fuel_of cs))"

definition json_loads :: "pystr \<Rightarrow> json_error + json" where
  "json_loads s =
     (if s \<noteq> [] \<and> hd s = 65279 then Inl UnexpectedBOM
      else
        (case scan_once (fuel_of s) (skip_ws s) of
           Inl e \<Rightarrow> Inl e
         | Inr (obj, rest) \<Rightarrow> if skip_ws rest = [] then Inr obj else Inl ExtraData))"

section \<open>Schema validation (pydantic models of app/services.py)\<close>

text \<open>
  The three output models are pydantic classes with the library's default (lax) validation:
  a \<open>float\<close> field takes a number, a boolean or a string that reads as a number; a \<open>str\<close>
  field takes a string only; fields the class does not declare are ignored; all errors of
  one object are reported together.
\<close>

definition ascii_lower :: "codepoint \<Rightarrow> codepoint" where
  "ascii_lower c = (if 65 \<le> c \<and> c \<le> 90 then c + 32 else c)"

definition str_as_float :: "pystr \<Rightarrow> pyfloat option" where
  \<comment> \<open>the lax conversion of a string to a float: blanks around the literal ignored, a sign,
      digits with an optional fraction and exponent, or one of the names inf, infinity, nan\<close>
  "str_as_float s =
     (let t = strip s;
          neg = (t \<noteq> [] \<and> hd t = 45);
          u = (if t \<noteq> [] \<and> (hd t = 45 \<or> hd t = 43) then tl t else t);
          int_digits = takeWhile is_digit u;
          r1 = dropWhile is_digit u;
          has_point = (r1 \<noteq> [] \<and> hd r1 = 46);
          frac_digits = (if has_point then takeWhile is_digit (tl r1) else []);
          r2 = (if has_point then dropWhile is_digit (tl r1) else r1);
          name = map ascii_lower u
      in if name = py_str ''inf'' \<or> name = py_str ''infinity'' then Some (if neg then NegInf else PosInf)
         else if name = py_str ''nan'' then Some NaN
         else if int_digits = [] \<and> frac_digits = [] then None
         else
           (case scan_exp r2 of
              None \<Rightarrow>
                if r2 = [] then Some (Finite (decimal_value neg (int_digits @ frac_digits)
                                               (- int (length frac_digits))))
                else None
            | Some (e, r3) \<Rightarrow>
                if r3 = [] then Some (Finite (decimal_value neg (int_digits @ frac_digits)
                                               (e - int (length frac_digits))))
                else None))"

definition float_field :: "pystr \<Rightarrow> (pystr \<times> json) list \<Rightarrow> field_error + pyfloat" where
  "float_field name d =
     (case map_of d name of
        None \<Rightarrow> Inl (Missing name)
      | Some v \<Rightarrow>
          (case v of
             JFloat f \<Rightarrow> Inr f
           | JInt i \<Rightarrow> Inr (Finite (of_int i))
           | JBool b \<Rightarrow> Inr (Finite (if b then 1 else 0))
           | JString s \<Rightarrow>
               (case str_as_float s of
                  Some f \<Rightarrow> Inr f
                | None \<Rightarrow> Inl (FloatParsing name))
           | _ \<Rightarrow> Inl (FloatType name)))"

definition str_field :: "pystr \<Rightarrow> (pystr \<times> json) list \<Rightarrow> field_error + pystr" where
  "str_field name d =
     (case map_of d name of
        None \<Rightarrow> Inl (Missing name)
      | Some v \<Rightarrow>
          (case v of
             JString s \<Rightarrow> Inr s
           | _ \<Rightarrow> Inl (StringType name)))"

definition errors_of :: "field_error + 'a \<Rightarrow> field_error list" where
  "errors_of r = (case r of Inl e \<Rightarrow> [e] | Inr _ \<Rightarrow> [])"

definition new_CvEvaluationOutput :: "(pystr \<times> json) list \<Rightarrow> field_error list + CvEvaluationOutput" where
  \<comment> \<open>\<open>CvEvaluationOutput(**json_data)\<close>\<close>
  "new_CvEvaluationOutput d =
     (case (float_field (py_str ''cv_match_rate'') d, str_field (py_str ''cv_feedback'') d) of
        (Inr rate, Inr feedback) \<Rightarrow> Inr \<lparr>cv_match_rate = rate, cv_feedback = feedback\<rparr>
      | (a, b) \<Rightarrow> Inl (errors_of a @ errors_of b))"

definition new_ProjectEvaluationOutput ::
  "(pystr \<times> json) list \<Rightarrow> field_error list + ProjectEvaluationOutput" where
  \<comment> \<open>\<open>ProjectEvaluationOutput(**json_data)\<close>\<close>
  "new_ProjectEvaluationOutput d =
     (case (float_field (py_str ''project_score'') d, str_field (py_str ''project_feedback'') d) of
        (Inr score, Inr feedback) \<Rightarrow> Inr \<lparr>project_score = score, project_feedback = feedback\<rparr>
      | (a, b) \<Rightarrow> Inl (errors_of a @ errors_of b))"

definition new_FinalSummaryOutput :: "(pystr \<times> json) list \<Rightarrow> field_error list + FinalSummaryOutput" where
  \<comment> \<open>\<open>FinalSummaryOutput(**json_data)\<close>\<close>
  "new_FinalSummaryOutput d =
     (case str_field (py_str ''overall_summary'') d of
        Inr summary \<Rightarrow> Inr \<lparr>overall_summary = summary\<rparr>
      | Inl e \<Rightarrow> Inl [e])"

section \<open>Parsing the LLM's answer (app/services.py)\<close>

definition regex_search_braces :: "pystr \<Rightarrow> pystr option" where
  \<comment> \<open>\<open>re.search(r"\{.*\}", llm_output, re.DOTALL)\<close> and \<open>match.group(0)\<close>: the leftmost match
      starts at the first \<open>{\<close> that has a \<open>}\<close> after it, which is the first \<open>{\<close> of the text, and
      the greedy \<open>.*\<close>, which also matches newlines, runs to the last \<open>}\<close> of the text\<close>
  "regex_search_braces s =
     (let from_open = dropWhile (\<lambda>c. c \<noteq> 123) s
      in if 125 \<in> set from_open
         then Some (rev (dropWhile (\<lambda>c. c \<noteq> 125) (rev from_open)))
         else None)"

definition extract_json_str :: "pystr \<Rightarrow> pystr" where
  "extract_json_str llm_output =
     (case regex_search_braces llm_output of
        None \<Rightarrow> llm_output
      | Some m \<Rightarrow> m)"

definition load_and_validate ::
  "pystr \<Rightarrow> ((pystr \<times> json) list \<Rightarrow> field_error list + 'a) \<Rightarrow> py_error + 'a" where
  \<comment> \<open>\<open>json_data = json.loads(json_str)\<close> and \<open>output_model(**json_data)\<close> under the three
      \<open>except\<close> clauses; \<open>**\<close> of a value that is not a dict raises a TypeError, which the last
      clause raises again as it is\<close>
  "load_and_validate json_str output_model =
     (case json_loads json_str of
        Inl e \<Rightarrow> Inl (InvalidJSONResponse e)
      | Inr json_data \<Rightarrow>
          (case json_data of
             JObject d \<Rightarrow>
               (case output_model d of
                  Inl errors \<Rightarrow> Inl (SchemaMismatch errors)
                | Inr validated_data \<Rightarrow> Inr validated_data)
           | _ \<Rightarrow> Inl (TypeError (py_str ''argument after ** must be a mapping''))))"

definition parse_llm_json ::
  "pystr \<Rightarrow> ((pystr \<times> json) list \<Rightarrow> field_error list + 'a) \<Rightarrow> py_error + 'a" where
  "parse_llm_json llm_output output_model =
     load_and_validate (extract_json_str llm_output) output_model"

text \<open>
  The extraction as the specification words it: the first balanced \<open>{...}\<close> of the text,
  found by counting braces from each \<open>{\<close> in turn.
\<close>

fun balanced_end :: "nat \<Rightarrow> pystr \<Rightarrow> pystr \<Rightarrow> pystr option" where
  "balanced_end depth acc [] = None"
| "balanced_end depth acc (c # cs) =
     (if c = 123 then balanced_end (Suc depth) (acc @ [c]) cs
      else if c = 125 then
        (if depth = 0 then Some (acc @ [c]) else balanced_end (depth - 1) (acc @ [c]) cs)
      else balanced_end depth (acc @ [c]) cs)"

fun spec_first_balanced_object :: "pystr \<Rightarrow> pystr option" where
  "spec_first_balanced_object [] = None"
| "spec_first_balanced_object (c # cs) =
     (if c = 123 then
        (case balanced_end 0 [c] cs of
           Some m \<Rightarrow> Some m
         | None \<Rightarrow> spec_first_balanced_object cs)
      else spec_first_balanced_object cs)"

definition matches_cv_json_schema :: "(pystr \<times> json) list \<Rightarrow> bool" where
  \<comment> \<open>the schema the CV prompt shows the model (\<open>CvEvaluationOutput.model_json_schema()\<close>): an
      object with the required properties \<open>cv_match_rate\<close>, a number, and \<open>cv_feedback\<close>, a string\<close>
  "matches_cv_json_schema d \<longleftrightarrow>
     (case map_of d (py_str ''cv_match_rate'') of
        Some (JInt _) \<Rightarrow> True | Some (JFloat _) \<Rightarrow> True | _ \<Rightarrow> False) \<and>
     (case map_of d (py_str ''cv_feedback'') of
        Some (JString _) \<Rightarrow> True | _ \<Rightarrow> False)"

section \<open>Evaluation pipeline (app/services.py, app/worker.py)\<close>

text \<open>
  The module's globals and the PDF reader are the services of a run. A step of the
  pipeline takes the world and returns a value or an exception together with the world
  it leaves; \<open>bind_step\<close> is the sequencing of two statements inside the \<open>try\<close> block: when
  the first raises, the second is not run.
\<close>

record services =
  pdf_reader :: "pystr \<Rightarrow> py_error + pystr list"
    \<comment> \<open>\<open>PdfReader(file_path)\<close> and \<open>extract_text\<close> of each page\<close>
  collection :: "chroma_collection option"
  llm_model :: "llm option"

definition bind_step ::
  "(world \<Rightarrow> (py_error + 'a) \<times> world) \<Rightarrow> ('a \<Rightarrow> world \<Rightarrow> (py_error + 'b) \<times> world) \<Rightarrow>
   world \<Rightarrow> (py_error + 'b) \<times> world" where
  "bind_step m f w = (case m w of (Inl e, w') \<Rightarrow> (Inl e, w') | (Inr x, w') \<Rightarrow> f x w')"

definition pure_step :: "py_error + 'a \<Rightarrow> world \<Rightarrow> (py_error + 'a) \<times> world" where
  \<comment> \<open>a statement that calls no collaborator\<close>
  "pure_step r w = (r, w)"

definition parse_pdf :: "services \<Rightarrow> pystr \<Rightarrow> world \<Rightarrow> (py_error + pystr) \<times> world" where
  "parse_pdf sv file_path w =
     (case pdf_reader sv file_path of
        Inl e \<Rightarrow> (Inl e, log_event (EvParsePdf file_path) w)
      | Inr pages \<Rightarrow>
          (Inr (concat (map (\<lambda>page_text. page_text @ nn) pages)), log_event (EvParsePdf file_path) w))"

definition extract_texts ::
  "services \<Rightarrow> pystr \<Rightarrow> pystr \<Rightarrow> world \<Rightarrow> (py_error + pystr \<times> pystr) \<times> world" where
  \<comment> \<open>the two \<open>parse_pdf\<close> calls\<close>
  "extract_texts sv cv_path report_path =
     bind_step (parse_pdf sv cv_path) (\<lambda>cv_text.
     bind_step (parse_pdf sv report_path) (\<lambda>report_text.
     pure_step (Inr (cv_text, report_text))))"

definition cv_stage ::
  "services \<Rightarrow> pystr \<Rightarrow> pystr \<Rightarrow> world \<Rightarrow> (py_error + CvEvaluationOutput) \<times> world" where
  \<comment> \<open>the block after \<open>"Memulai Evaluasi CV..."\<close>\<close>
  "cv_stage sv job_title cv_text =
     bind_step (query_rag (collection sv) (py_str ''skills untuk '' @ job_title)
                  [py_str ''job_description''] 5) (\<lambda>jd_context.
     bind_step (query_rag (collection sv) (py_str ''rubrik penilaian cv'')
                  [py_str ''cv_rubric''] 5) (\<lambda>cv_rubric_context.
     bind_step (call_gemini_with_retry (llm_model sv)
                  (create_cv_prompt cv_text jd_context cv_rubric_context) 3 5) (\<lambda>cv_response_str.
     pure_step (parse_llm_json cv_response_str new_CvEvaluationOutput))))"

definition project_stage ::
  "services \<Rightarrow> pystr \<Rightarrow> world \<Rightarrow> (py_error + ProjectEvaluationOutput) \<times> world" where
  \<comment> \<open>the block after \<open>"Memulai Evaluasi Proyek..."\<close>\<close>
  "project_stage sv report_text =
     bind_step (query_rag (collection sv) (py_str ''persyaratan case study'')
                  [py_str ''case_study_brief''] 5) (\<lambda>brief_context.
     bind_step (query_rag (collection sv) (py_str ''rubrik penilaian proyek'')
                  [py_str ''project_rubric''] 5) (\<lambda>project_rubric_context.
     bind_step (call_gemini_with_retry (llm_model sv)
                  (create_project_prompt report_text brief_context project_rubric_context) 3 5)
               (\<lambda>project_response_str.
     pure_step (parse_llm_json project_response_str new_ProjectEvaluationOutput))))"

definition summary_stage ::
  "services \<Rightarrow> CvEvaluationOutput \<Rightarrow> ProjectEvaluationOutput \<Rightarrow> world \<Rightarrow>
   (py_error + FinalSummaryOutput) \<times> world" where
  \<comment> \<open>the block after \<open>"Memulai Analisis Akhir..."\<close>\<close>
  "summary_stage sv cv_eval project_eval =
     bind_step (call_gemini_with_retry (llm_model sv) (create_summary_prompt cv_eval project_eval) 3 5)
               (\<lambda>summary_response_str.
     pure_step (parse_llm_json summary_response_str new_FinalSummaryOutput))"

definition run_real_evaluation_pipeline ::
  "services \<Rightarrow> pystr \<Rightarrow> pystr \<Rightarrow> pystr \<Rightarrow> pystr \<Rightarrow> world \<Rightarrow>
   (py_error + EvaluationResultData) \<times> world" where
  \<comment> \<open>the \<open>try\<close> block, statement after statement; \<open>except Exception as e: raise e\<close> hands
      the exception on unchanged\<close>
  "run_real_evaluation_pipeline sv job_id cv_path report_path job_title =
     bind_step (extract_texts sv cv_path report_path) (\<lambda>(cv_text, report_text).
     bind_step (cv_stage sv job_title cv_text) (\<lambda>cv_eval.
     bind_step (project_stage sv report_text) (\<lambda>project_eval.
     bind_step (summary_stage sv cv_eval project_eval) (\<lambda>summary_eval.
     pure_step (Inr \<lparr>result_cv_match_rate = cv_match_rate cv_eval,
                     result_cv_feedback = cv_feedback cv_eval,
                     result_project_score = project_score project_eval,
                     result_project_feedback = project_feedback project_eval,
                     result_overall_summary = overall_summary summary_eval\<rparr>)))))"

datatype task_state = TaskSuccess EvaluationResultData | TaskFailure py_error

definition evaluate_candidate_task ::
  "services \<Rightarrow> pystr \<Rightarrow> pystr \<Rightarrow> pystr \<Rightarrow> pystr \<Rightarrow> world \<Rightarrow> task_state \<times> world" where
  \<comment> \<open>the worker's task: the result of a normal return is stored with state SUCCESS, a
      raised exception with state FAILURE\<close>
  "evaluate_candidate_task sv job_id cv_path report_path job_title w =
     (case run_real_evaluation_pipeline sv job_id cv_path report_path job_title w of
        (Inl e, w') \<Rightarrow> (TaskFailure e, w')
      | (Inr final_result, w') \<Rightarrow> (TaskSuccess final_result, w'))"

definition stage_of :: "event \<Rightarrow> nat option" where
  \<comment> \<open>the stage an event belongs to: 0 text extraction, 1 CV, 2 project, 3 summary; a sleep
      belongs to the stage of the call it follows and has none of its own\<close>
  "stage_of ev =
     (case ev of
        EvParsePdf _ \<Rightarrow> Some 0
      | EvQuery _ sources _ \<Rightarrow>
          if sources = [py_str ''job_description''] \<or> sources = [py_str ''cv_rubric''] then Some 1
          else Some 2
      | EvGenerate p \<Rightarrow>
          (case p of CvPrompt _ _ _ \<Rightarrow> Some 1 | ProjectPrompt _ _ _ \<Rightarrow> Some 2 | SummaryPrompt _ _ \<Rightarrow> Some 3)
      | EvSleep _ \<Rightarrow> None)"

definition within_stage :: "nat \<Rightarrow> event list \<Rightarrow> bool" where
  "within_stage k evs \<longleftrightarrow> list_all (\<lambda>ev. stage_of ev = Some k \<or> stage_of ev = None) evs"

section \<open>Ingestion (scripts/ingest.py, app/services.py)\<close>

definition utf8_char :: "codepoint \<Rightarrow> nat list option" where
  \<comment> \<open>the UTF-8 bytes of a code point; a surrogate cannot be encoded\<close>
  "utf8_char c =
     (if c < 128 then Some [c]
      else if c < 2048 then Some [192 + c div 64, 128 + c mod 64]
      else if c < 65536 then
        (if 55296 \<le> c \<and> c \<le> 57343 then None
         else Some [224 + c div 4096, 128 + (c div 64) mod 64, 128 + c mod 64])
      else if c < 1114112 then
        Some [240 + c div 262144, 128 + (c div 4096) mod 64, 128 + (c div 64) mod 64, 128 + c mod 64]
      else None)"

definition encode_utf8 :: "pystr \<Rightarrow> py_error + nat list" where
  \<comment> \<open>\<open>s.encode('utf-8')\<close>\<close>
  "encode_utf8 s =
     (if None \<in> set (map utf8_char s) then Inl UnicodeEncodeError
      else Inr (concat (map (\<lambda>c. the (utf8_char c)) s)))"

definition generate_document_id :: "(nat list \<Rightarrow> pystr) \<Rightarrow> pystr \<Rightarrow> py_error + pystr" where
  \<comment> \<open>\<open>hashlib.md5(text_chunk.encode('utf-8')).hexdigest()\<close>; the digest function of the
      hash library is the parameter \<open>md5_hexdigest\<close>\<close>
  "generate_document_id md5_hexdigest text_chunk =
     (case encode_utf8 text_chunk of
        Inl e \<Rightarrow> Inl e
      | Inr bytes \<Rightarrow> Inr (md5_hexdigest bytes))"

fun collect_ids :: "(nat list \<Rightarrow> pystr) \<Rightarrow> chunk list \<Rightarrow> py_error + pystr list" where
  \<comment> \<open>the loop \<open>for chunk in chunks\<close> of \<open>ingest_document\<close>, as far as \<open>all_ids\<close> goes\<close>
  "collect_ids md5_hexdigest [] = Inr []"
| "collect_ids md5_hexdigest (c # cs) =
     (case generate_document_id md5_hexdigest (chunk_text c) of
        Inl e \<Rightarrow> Inl e
      | Inr chunk_id \<Rightarrow>
          (case collect_ids md5_hexdigest cs of
             Inl e \<Rightarrow> Inl e
           | Inr all_ids \<Rightarrow> Inr (chunk_id # all_ids)))"

record ingest_env =
  md5_hexdigest :: "nat list \<Rightarrow> pystr"
  pdf_pages :: "nat list \<Rightarrow> py_error + pystr list"
    \<comment> \<open>\<open>PdfReader(io.BytesIO(file_bytes))\<close> and \<open>extract_text\<close> of each page\<close>
  decode_utf8 :: "nat list \<Rightarrow> py_error + pystr"
    \<comment> \<open>\<open>file_bytes.decode('utf-8')\<close>\<close>

record ingest_response =
  response_message :: pystr
  response_source_name :: pystr
  chunks_added :: nat

definition get_chroma_collection ::
  "chroma_collection option \<Rightarrow> chroma_collection option \<Rightarrow> chroma_collection option" where
  \<comment> \<open>\<open>_get_chroma_collection\<close>: the module's collection when it was loaded, otherwise what
      opening the store again gives (\<open>None\<close> when that fails)\<close>
  "get_chroma_collection coll reopened = (case coll of Some c \<Rightarrow> Some c | None \<Rightarrow> reopened)"

definition read_content :: "ingest_env \<Rightarrow> nat list \<Rightarrow> pystr \<Rightarrow> py_error + pystr" where
  "read_content env file_bytes file_name =
     (if suffix (py_str ''.pdf'') file_name then
        (case pdf_pages env file_bytes of
           Inl e \<Rightarrow> Inl e
         | Inr pages \<Rightarrow> Inr (concat (map (\<lambda>page_text. page_text @ nn) pages)))
      else if suffix (py_str ''.txt'') file_name then decode_utf8 env file_bytes
      else Inl (ValueError (py_str ''Tipe file tidak didukung. Hanya .pdf atau .txt'')))"

definition ingest_document ::
  "ingest_env \<Rightarrow> chroma_collection option \<Rightarrow> nat list \<Rightarrow> pystr \<Rightarrow> pystr \<Rightarrow>
   (py_error + ingest_response) \<times> chroma_collection option" where
  \<comment> \<open>\<open>coll\<close> is what \<open>_get_chroma_collection()\<close> returns; the second component of the
      result is the collection after the call\<close>
  "ingest_document env coll file_bytes file_name source_name =
     (case read_content env file_bytes file_name of
        Inl e \<Rightarrow> (Inl (HTTPException 400 (py_str ''Gagal mem-parsing file: '') (Some e)), coll)
      | Inr content \<Rightarrow>
          (let chunks = split_text_into_chunks content source_name 1000 100 in
           case collect_ids (md5_hexdigest env) chunks of
             Inl e \<Rightarrow> (Inl e, coll)
           | Inr all_ids \<Rightarrow>
               (case coll of
                  None \<Rightarrow> (Inl (HTTPException 500 (py_str ''Database Chroma tidak tersedia'') None), coll)
                | Some c \<Rightarrow>
                    (case collection_upsert c all_ids (map chunk_text chunks) (map chunk_source chunks) of
                       Inl e \<Rightarrow> (Inl e, coll)
                     | Inr c' \<Rightarrow>
                         (Inr \<lparr>response_message = py_str ''Dokumen berhasil di-ingest'',
                               response_source_name = source_name,
                               chunks_added = length chunks\<rparr>, Some c')))))"

definition content_addressed :: "(nat list \<Rightarrow> pystr) \<Rightarrow> entry list \<Rightarrow> bool" where
  \<comment> \<open>the state of an index that only ingestion has written: no id twice, and every id
      the hash of its entry's text\<close>
  "content_addressed md5 idx \<longleftrightarrow>
     distinct (map entry_id idx) \<and>
     list_all (\<lambda>e. generate_document_id md5 (entry_text e) = Inr (entry_id e)) idx"

definition batch_entries :: "pystr list \<Rightarrow> pystr list \<Rightarrow> pystr list \<Rightarrow> entry list" where
  "batch_entries ids docs srcs =
     map (\<lambda>(i, d, s). \<lparr>entry_id = i, entry_text = d, entry_source = s\<rparr>) (zip ids (zip docs srcs))"

section \<open>Example inputs\<close>

definition empty_world :: world where
  "empty_world = \<lparr>llm_calls = 0, trace = []\<rparr>"

definition flaky_llm :: llm where
  \<comment> \<open>a service whose first two calls fail and whose later calls answer\<close>
  "flaky_llm k p = (if k < 2 then Inl (ExternalError k) else Inr (py_str ''ok''))"

definition failing_llm :: llm where
  \<comment> \<open>a service every call of which fails\<close>
  "failing_llm k p = Inl (ExternalError k)"

definition example_text :: pystr where
  \<comment> \<open>three paragraphs, the first set off by blanks and a triple newline\<close>
  "example_text = py_str '' aaaa \<newline>\<newline>\<newline>bb\<newline>\<newline>cc''"

definition example_source :: pystr where
  "example_source = py_str ''cv_rubric''"

definition repeated_text :: pystr where
  \<comment> \<open>the same paragraph twice\<close>
  "repeated_text = py_str ''A\<newline>\<newline>A''"

definition example_collection :: chroma_collection where
  "example_collection =
     \<lparr>reachable = True, distance = (\<lambda>q t. 0),
      entries = [\<lparr>entry_id = py_str ''1f'', entry_text = py_str ''Rubrik CV'',
                  entry_source = py_str ''cv_rubric''\<rparr>]\<rparr>"

definition empty_collection :: chroma_collection where
  "empty_collection = \<lparr>reachable = True, distance = (\<lambda>q t. 0), entries = []\<rparr>"

definition example_env :: ingest_env where
  \<comment> \<open>a toy digest (the bytes themselves) and readers for ASCII text\<close>
  "example_env = \<lparr>md5_hexdigest = (\<lambda>bytes. bytes), pdf_pages = (\<lambda>bytes. Inr [bytes]),
                  decode_utf8 = (\<lambda>bytes. Inr bytes)\<rparr>"

definition example_document :: pystr where
  \<comment> \<open>the one chunk the example text makes with the default chunk size\<close>
  "example_document = py_str ''aaaa\<newline>\<newline>bb\<newline>\<newline>cc''"

definition example_index :: chroma_collection where
  "example_index =
     empty_collection\<lparr>entries :=
       [\<lparr>entry_id = example_document, entry_text = example_document,
         entry_source = example_source\<rparr>]\<rparr>"

definition example_response :: ingest_response where
  "example_response =
     \<lparr>response_message = py_str ''Dokumen berhasil di-ingest'',
      response_source_name = example_source, chunks_added = 1\<rparr>"

definition example_response_text :: pystr where
  "example_response_text = py_str ''here you go: {\"cv_match_rate\": 0.8, \"cv_feedback\": \"ok\"}''"

definition two_objects_text :: pystr where
  "two_objects_text = py_str ''{\"overall_summary\": \"fine\"} (draft: {})''"

definition string_rate_text :: pystr where
  "string_rate_text = py_str ''{\"cv_match_rate\": \"0.8\", \"cv_feedback\": \"ok\"}''"

section \<open>Properties of the chunker\<close>

lemma isspace_10 [simp]: "isspace 10"
  by (simp add: isspace_def)

lemma dropWhile_hd: "xs \<noteq> [] \<Longrightarrow> \<not> P (hd xs) \<Longrightarrow> dropWhile P xs = xs"
  by (cases xs) auto

lemma strip_clean: "clean p \<Longrightarrow> strip p = p"
  by (simp add: clean_def strip_def dropWhile_hd hd_rev)

lemma last_dropWhile: "dropWhile P xs \<noteq> [] \<Longrightarrow> last (dropWhile P xs) = last xs"
  by (induction xs) auto

lemma strip_is_clean: "strip s \<noteq> [] \<Longrightarrow> clean (strip s)"
proof -
  assume ne: "strip s \<noteq> []"
  define a where "a = dropWhile isspace s"
  define b where "b = dropWhile isspace (rev a)"
  have s: "strip s = rev b" by (simp add: strip_def a_def b_def)
  from ne s have b: "b \<noteq> []" by simp
  then have a: "a \<noteq> []" by (auto simp: b_def)
  have "\<not> isspace (hd b)" using b unfolding b_def by (rule hd_dropWhile)
  moreover have "last b = last (rev a)" using b unfolding b_def by (rule last_dropWhile)
  moreover have "\<not> isspace (hd a)" using a unfolding a_def by (rule hd_dropWhile)
  ultimately show ?thesis using a b s by (simp add: clean_def hd_rev last_rev)
qed

lemma paragraphs_clean: "p \<in> set (paragraphs_of txt) \<Longrightarrow> clean p"
  by (auto simp: paragraphs_of_def strip_is_clean)

lemma length_packed_text: "int (length (packed_text g)) = packed_len g"
  by (induction g) (auto simp: packed_text_def packed_len_def nn_def)

lemma packed_text_snoc: "packed_text (g @ [p]) = packed_text g @ p @ nn"
  by (simp add: packed_text_def)

lemma packed_text_Nil_iff: "packed_text g = [] \<longleftrightarrow> g = []"
  by (cases g) (auto simp: packed_text_def nn_def)

lemma concat_sep_shift: "sep @ concat (map (\<lambda>p. p @ sep) g) = concat (map (\<lambda>q. sep @ q) g) @ sep"
  by (induction g) auto

lemma packed_text_join: "g \<noteq> [] \<Longrightarrow> packed_text g = join_str nn g @ nn"
  by (cases g) (auto simp: packed_text_def join_str_def concat_sep_shift)

lemma join_clean: "g \<noteq> [] \<Longrightarrow> \<forall>p\<in>set g. clean p \<Longrightarrow> clean (join_str nn g)"
proof (induction g rule: rev_nonempty_induct)
  case (single p)
  then show ?case by (simp add: join_str_def)
next
  case (snoc p g)
  then have "clean (join_str nn g)" and p: "clean p" by auto
  moreover have "join_str nn (g @ [p]) = join_str nn g @ nn @ p"
    using snoc.hyps by (cases g) (auto simp: join_str_def)
  ultimately show ?case by (auto simp: clean_def)
qed

lemma strip_clean_nn: "clean x \<Longrightarrow> strip (x @ nn) = x"
  by (simp add: clean_def strip_def nn_def dropWhile_hd hd_rev dropWhile_append3)

lemma strip_packed_text:
  "g \<noteq> [] \<Longrightarrow> \<forall>p\<in>set g. clean p \<Longrightarrow> strip (packed_text g) = join_str nn g"
  by (simp add: packed_text_join strip_clean_nn join_clean)

lemma emit_packed:
  "\<forall>p\<in>set g. clean p \<Longrightarrow>
   emit src (packed_text g) chunks = chunks @ map (mk_chunk src) (close_group g)"
  by (simp add: emit_def close_group_def packed_text_Nil_iff strip_packed_text mk_chunk_def)

lemma pack_loop_refines:
  "\<forall>p\<in>set cur \<union> set ps. clean p \<Longrightarrow>
   (case pack_loop cs src ps (packed_text cur, chunks) of (cc, ch) \<Rightarrow> emit src cc ch) =
     chunks @ map (mk_chunk src) (spec_pack cs cur ps)"
proof (induction ps arbitrary: cur chunks)
  case Nil
  then show ?case by (simp add: emit_packed)
next
  case (Cons p ps)
  show ?case
  proof (cases "packed_len cur + int (length p) + 2 \<le> cs")
    case True
    have "(case pack_loop cs src ps (packed_text (cur @ [p]), chunks) of (cc, ch) \<Rightarrow> emit src cc ch) =
            chunks @ map (mk_chunk src) (spec_pack cs (cur @ [p]) ps)"
      using Cons.prems by (intro Cons.IH) auto
    with True show ?thesis by (simp add: length_packed_text packed_text_snoc)
  next
    case False
    have "(case pack_loop cs src ps (packed_text [p], emit src (packed_text cur) chunks) of
             (cc, ch) \<Rightarrow> emit src cc ch) =
            emit src (packed_text cur) chunks @ map (mk_chunk src) (spec_pack cs [p] ps)"
      using Cons.prems by (intro Cons.IH) auto
    moreover have "emit src (packed_text cur) chunks = chunks @ map (mk_chunk src) (close_group cur)"
      using Cons.prems by (intro emit_packed) auto
    moreover have "packed_text [p] = p @ nn" by (simp add: packed_text_def)
    ultimately show ?thesis using False by (simp add: length_packed_text)
  qed
qed

lemma split_text_into_chunks_refines:
  "split_text_into_chunks txt src cs ov = map (mk_chunk src) (spec_pack cs [] (paragraphs_of txt))"
  using pack_loop_refines [where cur = "[]" and ps = "paragraphs_of txt" and cs = cs and src = src
      and chunks = "[]"]
  by (simp add: split_text_into_chunks_def packed_text_def paragraphs_clean)

lemma concat_spec_pack: "concat (spec_pack cs cur ps) = cur @ ps"
  by (induction ps arbitrary: cur) (auto simp: close_group_def)

lemma Nil_notin_spec_pack: "[] \<notin> set (spec_pack cs cur ps)"
  by (induction ps arbitrary: cur) (auto simp: close_group_def)

lemma spec_pack_bound:
  "packed_len cur \<le> cs \<or> length cur \<le> 1 \<Longrightarrow> g \<in> set (spec_pack cs cur ps) \<Longrightarrow>
   packed_len g \<le> cs \<or> length g = 1"
proof (induction ps arbitrary: cur)
  case Nil
  then show ?case by (cases cur) (auto simp: close_group_def split: if_splits)
next
  case (Cons p ps)
  show ?case
  proof (cases "packed_len cur + int (length p) + 2 \<le> cs")
    case True
    then have "packed_len (cur @ [p]) \<le> cs" by (simp add: packed_len_def)
    with Cons True show ?thesis by auto
  next
    case False
    with Cons.prems have "g \<in> set (close_group cur) \<or> g \<in> set (spec_pack cs [p] ps)" by auto
    then show ?thesis
    proof
      assume "g \<in> set (close_group cur)"
      with Cons.prems(1) show ?thesis by (cases cur) (auto simp: close_group_def split: if_splits)
    next
      assume "g \<in> set (spec_pack cs [p] ps)"
      then show ?thesis by (intro Cons.IH [of "[p]"]) auto
    qed
  qed
qed

lemma length_join: "g \<noteq> [] \<Longrightarrow> int (length (join_str nn g)) = packed_len g - 2"
  using length_packed_text [of g] by (simp add: packed_text_join nn_def)

lemma packed_len_nonneg: "0 \<le> packed_len g"
  by (induction g) (auto simp: packed_len_def)

lemma packed_len_mem: "p \<in> set g \<Longrightarrow> int (length p) + 2 \<le> packed_len g"
  using packed_len_nonneg by (induction g) (auto simp: packed_len_def)

lemma nn_free_snoc:
  "nn_free (p @ [c]) \<longleftrightarrow> nn_free p \<and> \<not> (p \<noteq> [] \<and> last p = 10 \<and> c = 10)"
  by (induction p rule: nn_free.induct) auto

lemma nn_free_tl: "nn_free (a # p) \<Longrightarrow> nn_free p"
  by (cases p) auto

lemma nn_free_dropWhile: "nn_free p \<Longrightarrow> nn_free (dropWhile P p)"
  by (induction p) (auto dest: nn_free_tl)

lemma nn_free_Cons:
  "nn_free (a # p) \<longleftrightarrow> nn_free p \<and> \<not> (p \<noteq> [] \<and> a = 10 \<and> hd p = 10)"
  by (cases p) auto

lemma nn_free_rev: "nn_free (rev p) \<longleftrightarrow> nn_free p"
proof (induction p)
  case Nil
  then show ?case by simp
next
  case (Cons a p)
  have "nn_free (rev (a # p)) \<longleftrightarrow> nn_free (rev p @ [a])" by simp
  also have "\<dots> \<longleftrightarrow> nn_free (rev p) \<and> \<not> (rev p \<noteq> [] \<and> last (rev p) = 10 \<and> a = 10)"
    by (rule nn_free_snoc)
  also have "\<dots> \<longleftrightarrow> nn_free p \<and> \<not> (p \<noteq> [] \<and> a = 10 \<and> hd p = 10)"
    using Cons.IH by (auto simp: last_rev)
  also have "\<dots> \<longleftrightarrow> nn_free (a # p)" by (rule nn_free_Cons [symmetric])
  finally show ?case .
qed

lemma nn_free_strip: "nn_free p \<Longrightarrow> nn_free (strip p)"
  by (simp add: strip_def nn_free_rev nn_free_dropWhile)

lemma prefix_nn: "prefix nn s \<longleftrightarrow> (\<exists>r. s = 10 # 10 # r)"
  by (auto simp: nn_def prefix_def)

lemma split_acc_pieces_nn_free:
  "q \<in> set (split_acc sep piece s) \<Longrightarrow> sep = nn \<Longrightarrow> nn_free piece \<Longrightarrow>
   (piece \<noteq> [] \<and> last piece = 10 \<longrightarrow> s = [] \<or> hd s \<noteq> 10) \<Longrightarrow> nn_free q"
proof (induction sep piece s rule: split_acc.induct)
  case (1 sep piece s)
  show ?case
  proof (cases "s = []")
    case True
    with "1.prems" show ?thesis by (subst (asm) split_acc.simps) simp
  next
    case ne: False
    show ?thesis
    proof (cases "prefix sep s")
      case True
      with ne "1.prems" have "q = piece \<or> q \<in> set (split_acc sep [] (drop (length sep) s))"
        by (subst (asm) split_acc.simps) (auto simp: nn_def)
      then show ?thesis
      proof
        assume "q = piece" with "1.prems" show ?thesis by simp
      next
        assume "q \<in> set (split_acc sep [] (drop (length sep) s))"
        then show ?thesis using ne True "1.prems"(2) by (intro "1.IH"(1)) (auto simp: nn_def)
      qed
    next
      case False
      with ne "1.prems" have q: "q \<in> set (split_acc sep (piece @ [hd s]) (tl s))"
        by (subst (asm) split_acc.simps) auto
      have "nn_free (piece @ [hd s])"
        using "1.prems" ne by (auto simp: nn_free_snoc)
      moreover have "hd s = 10 \<longrightarrow> tl s = [] \<or> hd (tl s) \<noteq> 10"
        using False ne "1.prems"(2) by (cases s; cases "tl s") (auto simp: prefix_nn)
      ultimately show ?thesis using q ne False "1.prems"(2) by (intro "1.IH"(2)) auto
    qed
  qed
qed

lemma paragraphs_nn_free: "p \<in> set (paragraphs_of txt) \<Longrightarrow> nn_free p"
  by (auto simp: paragraphs_of_def split_str_def intro!: nn_free_strip
           intro: split_acc_pieces_nn_free [where piece = "[]"])

lemma split_acc_no_sep:
  "nn_free p \<Longrightarrow> p = [] \<or> last p \<noteq> 10 \<Longrightarrow> split_acc nn acc p = [acc @ p]"
proof (induction p arbitrary: acc)
  case Nil
  then show ?case by (subst split_acc.simps) simp
next
  case (Cons c p)
  then have "\<not> prefix nn (c # p)" by (cases p) (auto simp: prefix_nn)
  moreover have "split_acc nn (acc @ [c]) p = [(acc @ [c]) @ p]"
    using Cons.prems by (intro Cons.IH) (auto dest: nn_free_tl split: if_splits)
  ultimately show ?case by (subst split_acc.simps) simp
qed

lemma split_acc_at_sep:
  "nn_free p \<Longrightarrow> p = [] \<or> last p \<noteq> 10 \<Longrightarrow>
   split_acc nn acc (p @ nn @ rest) = (acc @ p) # split_acc nn [] rest"
proof (induction p arbitrary: acc)
  case Nil
  then show ?case by (subst split_acc.simps) (simp add: nn_def)
next
  case (Cons c p)
  then have "\<not> prefix nn (c # p @ nn @ rest)" by (cases p) (auto simp: prefix_nn)
  moreover have "split_acc nn (acc @ [c]) (p @ nn @ rest) = ((acc @ [c]) @ p) # split_acc nn [] rest"
    using Cons.prems by (intro Cons.IH) (auto dest: nn_free_tl split: if_splits)
  ultimately show ?case by (subst split_acc.simps) simp
qed

lemma clean_last: "clean p \<Longrightarrow> last p \<noteq> 10"
  by (auto simp: clean_def)

lemma split_join:
  "g \<noteq> [] \<Longrightarrow> \<forall>p\<in>set g. clean p \<and> nn_free p \<Longrightarrow> split_str (join_str nn g) nn = g"
proof (induction g rule: list_nonempty_induct)
  case (single p)
  then show ?case by (simp add: split_str_def join_str_def split_acc_no_sep clean_last)
next
  case (cons p g)
  have "join_str nn (p # g) = p @ nn @ join_str nn g"
    using cons.hyps by (cases g) (auto simp: join_str_def)
  moreover have "split_acc nn [] (p @ nn @ join_str nn g) = ([] @ p) # split_acc nn [] (join_str nn g)"
    using cons.prems by (intro split_acc_at_sep) (auto simp: clean_last)
  ultimately show ?case using cons by (simp add: split_str_def)
qed

lemma paragraphs_of_join:
  assumes "g \<noteq> []" and "\<forall>p\<in>set g. clean p \<and> nn_free p"
  shows "paragraphs_of (join_str nn g) = g"
proof -
  have "\<forall>p\<in>set g. strip p = p \<and> p \<noteq> []"
    using assms(2) by (auto simp: strip_clean clean_def)
  then have "map strip (filter (\<lambda>p. strip p \<noteq> []) g) = g"
    by (induction g) auto
  then show ?thesis using assms by (simp add: paragraphs_of_def split_join)
qed

lemma chunks_resplit:
  "concat (map (\<lambda>c. paragraphs_of (chunk_text c)) (split_text_into_chunks txt src cs ov)) =
     paragraphs_of txt"
proof -
  define groups where "groups = spec_pack cs [] (paragraphs_of txt)"
  have cc: "concat groups = paragraphs_of txt"
    by (simp add: groups_def concat_spec_pack)
  have "\<forall>g\<in>set groups. paragraphs_of (join_str nn g) = g"
  proof
    fix g assume g: "g \<in> set groups"
    then have "g \<noteq> []" using Nil_notin_spec_pack by (auto simp: groups_def)
    moreover have "\<forall>p\<in>set g. clean p \<and> nn_free p"
    proof
      fix p assume "p \<in> set g"
      with g have "p \<in> set (concat groups)" by auto
      then show "clean p \<and> nn_free p" by (simp add: cc paragraphs_clean paragraphs_nn_free)
    qed
    ultimately show "paragraphs_of (join_str nn g) = g" by (rule paragraphs_of_join)
  qed
  then have "map (\<lambda>g. paragraphs_of (join_str nn g)) groups = groups"
    by (induction groups) auto
  then show ?thesis
    by (simp add: split_text_into_chunks_refines groups_def [symmetric] comp_def mk_chunk_def cc)
qed

lemma example_paragraphs:
  "paragraphs_of example_text = [py_str ''aaaa'', py_str ''bb'', py_str ''cc'']"
  by (simp add: paragraphs_of_def example_text_def split_str_def split_acc.simps nn_def py_str_def
        strip_def isspace_def)

lemma example_chunks_3:
  "split_text_into_chunks example_text example_source 3 100 =
     [\<lparr>chunk_text = py_str ''aaaa'', chunk_source = example_source\<rparr>,
      \<lparr>chunk_text = py_str ''bb'', chunk_source = example_source\<rparr>,
      \<lparr>chunk_text = py_str ''cc'', chunk_source = example_source\<rparr>]"
  by (simp add: split_text_into_chunks_def example_paragraphs emit_def example_source_def
        py_str_def nn_def strip_def isspace_def)

lemma example_chunks_8:
  "split_text_into_chunks example_text example_source 8 100 =
     [\<lparr>chunk_text = py_str ''aaaa'', chunk_source = example_source\<rparr>,
      \<lparr>chunk_text = py_str ''bb\<newline>\<newline>cc'', chunk_source = example_source\<rparr>]"
  by (simp add: split_text_into_chunks_def example_paragraphs emit_def example_source_def
        py_str_def nn_def strip_def isspace_def)

text \<open>
  Claim C2. Every chunk is at most \<open>chunk_size\<close> characters long or is exactly one
  paragraph of the input (then a paragraph that alone exceeds \<open>chunk_size\<close>); and every
  paragraph longer than \<open>chunk_size\<close> is the text of a chunk of its own.
\<close>

theorem chunk_size_bound:
  "(\<forall>c\<in>set (split_text_into_chunks txt src cs ov).
      int (length (chunk_text c)) \<le> cs \<or> chunk_text c \<in> set (paragraphs_of txt)) \<and>
   (\<forall>p\<in>set (paragraphs_of txt).
      cs < int (length p) \<longrightarrow> p \<in> chunk_text ` set (split_text_into_chunks txt src cs ov))"
proof (intro conjI ballI impI)
  fix c assume "c \<in> set (split_text_into_chunks txt src cs ov)"
  then obtain g where g: "g \<in> set (spec_pack cs [] (paragraphs_of txt))" and c: "c = mk_chunk src g"
    by (auto simp: split_text_into_chunks_refines)
  from g have ne: "g \<noteq> []" using Nil_notin_spec_pack by auto
  from g have "packed_len g \<le> cs \<or> length g = 1" by (intro spec_pack_bound [of "[]"]) auto
  then show "int (length (chunk_text c)) \<le> cs \<or> chunk_text c \<in> set (paragraphs_of txt)"
  proof
    assume "packed_len g \<le> cs"
    then show ?thesis using ne by (simp add: c mk_chunk_def length_join)
  next
    assume "length g = 1"
    then obtain p where p: "g = [p]" by (cases g) auto
    with g have "p \<in> set (concat (spec_pack cs [] (paragraphs_of txt)))"
      by (auto intro!: bexI [of _ "[p]"])
    then show ?thesis by (simp add: c mk_chunk_def p join_str_def concat_spec_pack)
  qed
next
  fix p assume p: "p \<in> set (paragraphs_of txt)" and big: "cs < int (length p)"
  from p have "p \<in> set (concat (spec_pack cs [] (paragraphs_of txt)))"
    by (simp add: concat_spec_pack)
  then obtain g where g: "g \<in> set (spec_pack cs [] (paragraphs_of txt))" and pg: "p \<in> set g"
    by auto
  from g have "packed_len g \<le> cs \<or> length g = 1" by (intro spec_pack_bound [of "[]"]) auto
  moreover have "int (length p) + 2 \<le> packed_len g" using pg by (rule packed_len_mem)
  ultimately have "length g = 1" using big by auto
  with pg have "g = [p]" by (cases g) auto
  with g have "mk_chunk src [p] \<in> set (split_text_into_chunks txt src cs ov)"
    by (auto simp: split_text_into_chunks_refines)
  then show "p \<in> chunk_text ` set (split_text_into_chunks txt src cs ov)"
    by (force simp: mk_chunk_def join_str_def)
qed

theorem chunk_size_bound_witness:
  "map (\<lambda>c. int (length (chunk_text c))) (split_text_into_chunks example_text example_source 3 100) =
     [4, 2, 2] \<and>
   py_str ''aaaa'' \<in> set (paragraphs_of example_text) \<and>
   py_str ''aaaa'' \<in> chunk_text ` set (split_text_into_chunks example_text example_source 3 100) \<and>
   map (\<lambda>c. int (length (chunk_text c))) (split_text_into_chunks example_text example_source 8 100) =
     [4, 6]"
  using chunk_size_bound [of example_text example_source 3 100]
  by (simp add: example_chunks_3 example_chunks_8 example_paragraphs py_str_def)

lemma filter_dropWhile_disjoint:
  "(\<And>x. Q x \<Longrightarrow> \<not> P x) \<Longrightarrow> filter P (dropWhile Q xs) = filter P xs"
  by (induction xs) auto

lemma filter_strip: "filter (\<lambda>c. \<not> isspace c) (strip p) = filter (\<lambda>c. \<not> isspace c) p"
  by (simp add: strip_def rev_filter [symmetric] filter_dropWhile_disjoint)

lemma filter_split_acc_gen:
  "sep = nn \<Longrightarrow>
   filter (\<lambda>c. \<not> isspace c) (concat (split_acc sep piece s)) = filter (\<lambda>c. \<not> isspace c) (piece @ s)"
proof (induction sep piece s rule: split_acc.induct)
  case (1 sep piece s)
  show ?case
  proof (cases "s = []")
    case True
    then show ?thesis by (subst split_acc.simps) simp
  next
    case ne: False
    show ?thesis
    proof (cases "prefix sep s")
      case True
      then obtain r where r: "s = 10 # 10 # r" using "1.prems" by (auto simp: prefix_nn)
      have "filter (\<lambda>c. \<not> isspace c) (concat (split_acc sep [] (drop (length sep) s))) =
              filter (\<lambda>c. \<not> isspace c) ([] @ drop (length sep) s)"
        using ne True "1.prems" by (intro "1.IH"(1)) (auto simp: nn_def)
      then show ?thesis using ne True r "1.prems" by (subst split_acc.simps) (simp add: nn_def)
    next
      case False
      have "filter (\<lambda>c. \<not> isspace c) (concat (split_acc sep (piece @ [hd s]) (tl s))) =
              filter (\<lambda>c. \<not> isspace c) ((piece @ [hd s]) @ tl s)"
        using ne False "1.prems" by (intro "1.IH"(2)) auto
      then show ?thesis using ne False by (subst split_acc.simps) simp
    qed
  qed
qed

lemma filter_split_acc:
  "filter (\<lambda>c. \<not> isspace c) (concat (split_acc nn piece s)) = filter (\<lambda>c. \<not> isspace c) (piece @ s)"
  by (rule filter_split_acc_gen) simp

lemma filter_paragraphs_pieces:
  "filter (\<lambda>c. \<not> isspace c) (concat (map strip (filter (\<lambda>p. strip p \<noteq> []) xs))) =
     filter (\<lambda>c. \<not> isspace c) (concat xs)"
proof (induction xs)
  case Nil
  then show ?case by simp
next
  case (Cons p xs)
  have "strip p = [] \<Longrightarrow> filter (\<lambda>c. \<not> isspace c) p = []"
    using filter_strip [of p] by simp
  with Cons show ?case by (simp add: filter_strip)
qed

lemma filter_paragraphs:
  "filter (\<lambda>c. \<not> isspace c) (concat (paragraphs_of txt)) = filter (\<lambda>c. \<not> isspace c) txt"
  by (simp add: paragraphs_of_def split_str_def filter_paragraphs_pieces filter_split_acc)

lemma filter_join:
  "filter (\<lambda>c. \<not> isspace c) (join_str nn g) = filter (\<lambda>c. \<not> isspace c) (concat g)"
proof (cases g)
  case Nil
  then show ?thesis by (simp add: join_str_def)
next
  case (Cons p ps)
  have "filter (\<lambda>c. \<not> isspace c) (concat (map (\<lambda>q. nn @ q) ps)) = filter (\<lambda>c. \<not> isspace c) (concat ps)"
    by (induction ps) (auto simp: nn_def)
  with Cons show ?thesis by (simp add: join_str_def)
qed

lemma filter_chunks:
  "filter (\<lambda>c. \<not> isspace c) (concat (map chunk_text (split_text_into_chunks txt src cs ov))) =
     filter (\<lambda>c. \<not> isspace c) txt"
proof -
  have "filter (\<lambda>c. \<not> isspace c) (concat (map (join_str nn) groups)) =
          filter (\<lambda>c. \<not> isspace c) (concat (concat groups))" for groups
    by (induction groups) (auto simp: filter_join)
  from this [of "spec_pack cs [] (paragraphs_of txt)"] show ?thesis
    by (simp add: split_text_into_chunks_refines comp_def mk_chunk_def concat_spec_pack
          filter_paragraphs)
qed

text \<open>
  Claim C7. Splitting each chunk's text into paragraphs again and concatenating the
  results in chunk order gives the non-empty paragraphs of the input, in their order:
  none is dropped, duplicated or moved. The chunk texts, concatenated, are the input
  with whitespace left out.
\<close>

theorem chunks_reconstruct_paragraphs:
  "concat (map (\<lambda>c. paragraphs_of (chunk_text c)) (split_text_into_chunks txt src cs ov)) =
     paragraphs_of txt \<and>
   filter (\<lambda>c. \<not> isspace c) (concat (map chunk_text (split_text_into_chunks txt src cs ov))) =
     filter (\<lambda>c. \<not> isspace c) txt"
  by (simp add: chunks_resplit filter_chunks)

lemma repeated_paragraph: "paragraphs_of (py_str ''A'') = [py_str ''A'']"
  by (simp add: paragraphs_of_def split_str_def split_acc.simps nn_def py_str_def strip_def
        isspace_def)

lemma repeated_paragraphs: "paragraphs_of repeated_text = [py_str ''A'', py_str ''A'']"
  by (simp add: paragraphs_of_def repeated_text_def split_str_def split_acc.simps nn_def py_str_def
        strip_def isspace_def)

lemma repeated_chunks:
  "split_text_into_chunks repeated_text example_source 1 100 =
     [\<lparr>chunk_text = py_str ''A'', chunk_source = example_source\<rparr>,
      \<lparr>chunk_text = py_str ''A'', chunk_source = example_source\<rparr>]"
  by (simp add: split_text_into_chunks_def repeated_paragraphs emit_def example_source_def
        py_str_def nn_def strip_def isspace_def)

lemma distinct_concat_nth:
  "distinct (concat xs) \<Longrightarrow> i < j \<Longrightarrow> j < length xs \<Longrightarrow> set (xs ! i) \<inter> set (xs ! j) = {}"
proof -
  assume d: "distinct (concat xs)" and ij: "i < j" and j: "j < length xs"
  have xs: "xs = take j xs @ xs ! j # drop (Suc j) xs" using j by (rule id_take_nth_drop)
  have "xs ! i \<in> set (take j xs)" using ij j by (auto simp: in_set_conv_nth intro!: exI [of _ i])
  then have "set (xs ! i) \<subseteq> set (concat (take j xs))" by auto
  moreover have "set (concat (take j xs)) \<inter> set (xs ! j) = {}"
    using d by (subst (asm) xs) auto
  ultimately show ?thesis by auto
qed

text \<open>
  Claim C9, as stated, fails on a text that repeats a paragraph: with the text
  \<open>"A\n\nA"\<close> and \<open>chunk_size = 1\<close> the chunker returns two chunks, and the paragraph
  \<open>A\<close> is the content of both.
\<close>

theorem chunks_share_repeated_paragraph_counterexample:
  "split_text_into_chunks repeated_text example_source 1 100 =
     [\<lparr>chunk_text = py_str ''A'', chunk_source = example_source\<rparr>,
      \<lparr>chunk_text = py_str ''A'', chunk_source = example_source\<rparr>] \<and>
   paragraphs_of (chunk_text (split_text_into_chunks repeated_text example_source 1 100 ! 0)) =
     [py_str ''A''] \<and>
   paragraphs_of (chunk_text (split_text_into_chunks repeated_text example_source 1 100 ! 1)) =
     [py_str ''A'']"
  by (simp add: repeated_chunks repeated_paragraph)

text \<open>
  Claim C9, amended. The result does not depend on \<open>chunk_overlap\<close>. For every text the
  chunks divide the sequence of the input's paragraphs: the paragraphs of the chunks, in
  chunk order, are the paragraphs of the input, each occurrence in one chunk only. When
  the input's paragraphs are pairwise different, no two chunks have a paragraph in common.
\<close>

theorem chunk_overlap_unused:
  "split_text_into_chunks txt src cs o1 = split_text_into_chunks txt src cs o2 \<and>
   concat (map (\<lambda>c. paragraphs_of (chunk_text c)) (split_text_into_chunks txt src cs o1)) =
     paragraphs_of txt \<and>
   (distinct (paragraphs_of txt) \<longrightarrow>
      (\<forall>i j. i < j \<and> j < length (split_text_into_chunks txt src cs o1) \<longrightarrow>
         set (paragraphs_of (chunk_text (split_text_into_chunks txt src cs o1 ! i))) \<inter>
         set (paragraphs_of (chunk_text (split_text_into_chunks txt src cs o1 ! j))) = {}))"
proof (intro conjI impI allI)
  show "split_text_into_chunks txt src cs o1 = split_text_into_chunks txt src cs o2"
    by (simp add: split_text_into_chunks_def)
next
  show "concat (map (\<lambda>c. paragraphs_of (chunk_text c)) (split_text_into_chunks txt src cs o1)) =
          paragraphs_of txt"
    by (rule chunks_resplit)
next
  fix i j
  assume d: "distinct (paragraphs_of txt)"
    and ij: "i < j \<and> j < length (split_text_into_chunks txt src cs o1)"
  let ?xs = "map (\<lambda>c. paragraphs_of (chunk_text c)) (split_text_into_chunks txt src cs o1)"
  have "distinct (concat ?xs)" using d by (simp add: chunks_resplit)
  then have "set (?xs ! i) \<inter> set (?xs ! j) = {}" using ij by (intro distinct_concat_nth) auto
  then show "set (paragraphs_of (chunk_text (split_text_into_chunks txt src cs o1 ! i))) \<inter>
             set (paragraphs_of (chunk_text (split_text_into_chunks txt src cs o1 ! j))) = {}"
    using ij by simp
qed

theorem chunk_overlap_unused_witness:
  "split_text_into_chunks example_text example_source 8 0 =
     split_text_into_chunks example_text example_source 8 100 \<and>
   concat (map (\<lambda>c. paragraphs_of (chunk_text c)) (split_text_into_chunks example_text example_source 8 100)) =
     [py_str ''aaaa'', py_str ''bb'', py_str ''cc''] \<and>
   distinct (paragraphs_of example_text) \<and>
   length (split_text_into_chunks example_text example_source 8 100) = 2 \<and>
   set (paragraphs_of (chunk_text (split_text_into_chunks example_text example_source 8 100 ! 0))) \<inter>
   set (paragraphs_of (chunk_text (split_text_into_chunks example_text example_source 8 100 ! 1))) = {}"
proof -
  have d: "distinct (paragraphs_of example_text)"
    by (simp add: example_paragraphs py_str_def)
  have l: "length (split_text_into_chunks example_text example_source 8 100) = 2"
    by (simp add: example_chunks_8)
  show ?thesis
    using chunk_overlap_unused [of example_text example_source 8 100 0] d l
    by (simp add: split_text_into_chunks_def example_paragraphs)
qed

section \<open>Properties of the vector index, the retriever and ingestion\<close>

lemma filter_none: "list_all (\<lambda>e. \<not> P e) xs \<Longrightarrow> filter P xs = []"
  by (induction xs) auto

text \<open>
  Claim C8. When the store is reachable and no stored chunk has a source in the filter
  (an empty index included), the similarity query returns one empty list of documents
  and raises nothing, and \<open>query_rag\<close> returns the empty string as the context.
\<close>

theorem query_no_match_empty:
  assumes "reachable c" and "list_all (\<lambda>e. entry_source e \<notin> set sources) (entries c)"
  shows "collection_query c q k sources = Inr \<lparr>documents = Some [[]]\<rparr> \<and>
         query_rag (Some c) q sources k w = (Inr [], log_event (EvQuery q sources k) w)"
  using assms by (simp add: collection_query_def query_rag_def filter_none)

theorem query_no_match_empty_witness:
  "query_rag (Some example_collection) (py_str ''skills'') [py_str ''job_description''] 5 empty_world =
     (Inr [], \<lparr>llm_calls = 0, trace = [EvQuery (py_str ''skills'') [py_str ''job_description''] 5]\<rparr>) \<and>
   query_rag (Some empty_collection) (py_str ''skills'') [py_str ''job_description''] 5 empty_world =
     (Inr [], \<lparr>llm_calls = 0, trace = [EvQuery (py_str ''skills'') [py_str ''job_description''] 5]\<rparr>)"
  using query_no_match_empty [of example_collection "[py_str ''job_description'']" "py_str ''skills''" 5
          empty_world]
        query_no_match_empty [of empty_collection "[py_str ''job_description'']" "py_str ''skills''" 5
          empty_world]
  by (simp add: example_collection_def empty_collection_def empty_world_def log_event_def py_str_def)

lemma upsert_entry_ids:
  "set (map entry_id (upsert_entry e xs)) = insert (entry_id e) (set (map entry_id xs))"
  by (induction xs) auto

lemma upsert_entry_distinct:
  "distinct (map entry_id xs) \<Longrightarrow> distinct (map entry_id (upsert_entry e xs))"
proof (induction xs)
  case Nil
  then show ?case by simp
next
  case (Cons x xs)
  have "entry_id x \<noteq> entry_id e \<Longrightarrow> entry_id x \<notin> set (map entry_id (upsert_entry e xs))"
    using Cons.prems by (simp only: upsert_entry_ids) auto
  with Cons show ?case by auto
qed

lemma upsert_entry_set: "set (upsert_entry e xs) \<subseteq> insert e (set xs)"
  by (induction xs) auto

lemma upsert_entry_mem: "e \<in> set (upsert_entry e xs)"
  by (induction xs) auto

lemma upsert_entry_keeps:
  "x \<in> set xs \<Longrightarrow> entry_id x \<noteq> entry_id e \<Longrightarrow> x \<in> set (upsert_entry e xs)"
  by (induction xs) auto

lemma upsert_entry_same:
  "distinct (map entry_id xs) \<Longrightarrow> e \<in> set xs \<Longrightarrow> upsert_entry e xs = xs"
  by (induction xs) force+

lemma fold_upsert_distinct:
  "distinct (map entry_id xs) \<Longrightarrow> distinct (map entry_id (fold upsert_entry bs xs))"
  by (induction bs arbitrary: xs) (auto simp: upsert_entry_distinct)

lemma fold_upsert_set: "set (fold upsert_entry bs xs) \<subseteq> set bs \<union> set xs"
proof (induction bs arbitrary: xs)
  case Nil
  then show ?case by simp
next
  case (Cons b bs)
  have "set (fold upsert_entry bs (upsert_entry b xs)) \<subseteq> set bs \<union> set (upsert_entry b xs)"
    by (rule Cons.IH)
  then show ?case using upsert_entry_set [of b xs] by auto
qed

lemma fold_upsert_keeps:
  "x \<in> set xs \<Longrightarrow> entry_id x \<notin> entry_id ` set bs \<Longrightarrow> x \<in> set (fold upsert_entry bs xs)"
  by (induction bs arbitrary: xs) (auto simp: upsert_entry_keeps)

lemma fold_upsert_mem:
  "distinct (map entry_id bs) \<Longrightarrow> b \<in> set bs \<Longrightarrow> b \<in> set (fold upsert_entry bs xs)"
proof (induction bs arbitrary: xs)
  case Nil
  then show ?case by simp
next
  case (Cons a bs)
  show ?case
  proof (cases "b = a")
    case True
    have "a \<in> set (fold upsert_entry bs (upsert_entry a xs))"
      using Cons.prems(1) by (intro fold_upsert_keeps upsert_entry_mem) auto
    with True show ?thesis by simp
  next
    case False
    with Cons show ?thesis by auto
  qed
qed

lemma fold_upsert_same:
  "distinct (map entry_id xs) \<Longrightarrow> set bs \<subseteq> set xs \<Longrightarrow> fold upsert_entry bs xs = xs"
  by (induction bs) (auto simp: upsert_entry_same)

lemma fold_upsert_twice:
  assumes "distinct (map entry_id bs)" and "distinct (map entry_id xs)"
  shows "fold upsert_entry bs (fold upsert_entry bs xs) = fold upsert_entry bs xs"
proof -
  have "set bs \<subseteq> set (fold upsert_entry bs xs)"
    using assms(1) by (auto intro: fold_upsert_mem)
  moreover have "distinct (map entry_id (fold upsert_entry bs xs))"
    using assms(2) by (rule fold_upsert_distinct)
  ultimately show ?thesis by (rule fold_upsert_same [rotated])
qed

lemma collection_upsert_batch:
  "collection_upsert c ids docs srcs =
     (if \<not> reachable c then Inl StoreUnavailable
      else if ids = [] then Inl (ValueError (py_str ''Expected IDs to be a non-empty list''))
      else if \<not> distinct ids then Inl DuplicateIDError
      else Inr (c\<lparr>entries := fold upsert_entry (batch_entries ids docs srcs) (entries c)\<rparr>))"
  by (simp add: collection_upsert_def batch_entries_def fold_map comp_def case_prod_unfold)

lemma batch_entries_Nil [simp]: "batch_entries [] docs srcs = []"
  by (simp add: batch_entries_def)

lemma batch_entries_Cons [simp]:
  "batch_entries (i # ids) (d # docs) (s # srcs) =
     \<lparr>entry_id = i, entry_text = d, entry_source = s\<rparr> # batch_entries ids docs srcs"
  by (simp add: batch_entries_def)

lemma collect_ids_all2:
  "collect_ids md5 cs = Inr ids \<Longrightarrow>
   list_all2 (\<lambda>ch i. generate_document_id md5 (chunk_text ch) = Inr i) cs ids"
proof (induction cs arbitrary: ids)
  case Nil
  then show ?case by simp
next
  case (Cons c cs)
  from Cons.prems obtain i rest where i: "generate_document_id md5 (chunk_text c) = Inr i"
    and rest: "collect_ids md5 cs = Inr rest" and ids: "ids = i # rest"
    by (auto split: sum.splits)
  from rest have "list_all2 (\<lambda>ch i. generate_document_id md5 (chunk_text ch) = Inr i) cs rest"
    by (rule Cons.IH)
  with i ids show ?case by simp
qed

lemma batch_entries_ids:
  "list_all2 R cs ids \<Longrightarrow>
   map entry_id (batch_entries ids (map chunk_text cs) (map chunk_source cs)) = ids"
  by (induction cs ids rule: list_all2_induct) simp_all

lemma batch_entries_hashed:
  "list_all2 (\<lambda>ch i. generate_document_id md5 (chunk_text ch) = Inr i) cs ids \<Longrightarrow>
   list_all (\<lambda>b. generate_document_id md5 (entry_text b) = Inr (entry_id b))
     (batch_entries ids (map chunk_text cs) (map chunk_source cs))"
  by (induction cs ids rule: list_all2_induct) simp_all

lemma batch_entries_of_chunk:
  "list_all2 (\<lambda>ch i. generate_document_id md5 (chunk_text ch) = Inr i) cs ids \<Longrightarrow>
   ch \<in> set cs \<Longrightarrow>
   \<exists>b\<in>set (batch_entries ids (map chunk_text cs) (map chunk_source cs)).
      entry_text b = chunk_text ch \<and> generate_document_id md5 (chunk_text ch) = Inr (entry_id b)"
proof (induction cs ids rule: list_all2_induct)
  case Nil
  then show ?case by simp
next
  case (Cons c cs i ids)
  show ?case
  proof (cases "ch = c")
    case True
    with Cons.hyps(1) show ?thesis by simp
  next
    case False
    with Cons.prems have "ch \<in> set cs" by simp
    then show ?thesis using Cons.IH by auto
  qed
qed

lemma filter_unique:
  assumes "distinct (map f xs)" and "b \<in> set xs" and "P b"
    and "\<And>e. e \<in> set xs \<Longrightarrow> P e \<Longrightarrow> f e = f b"
  shows "filter P xs = [b]"
  using assms
proof (induction xs)
  case Nil
  then show ?case by simp
next
  case (Cons x xs)
  from Cons.prems(1) have nx: "f x \<notin> f ` set xs" and d: "distinct (map f xs)" by simp_all
  have same: "f e = f b" if "e \<in> set xs" "P e" for e
    using that Cons.prems(4) [of e] by simp
  show ?case
  proof (cases "x = b")
    case True
    have "\<not> P e" if "e \<in> set xs" for e
    proof
      assume "P e"
      with that have "f e = f x" using same True by simp
      with that nx show False by (metis imageI)
    qed
    then have "filter P xs = []" by (simp add: filter_empty_conv)
    with True Cons.prems(3) show ?thesis by simp
  next
    case False
    with Cons.prems(2) have b: "b \<in> set xs" by simp
    have "\<not> P x"
    proof
      assume "P x"
      then have "f x = f b" using Cons.prems(4) [of x] by simp
      with b nx show False by (metis imageI)
    qed
    moreover have "filter P xs = [b]" using d b Cons.prems(3) same by (rule Cons.IH)
    ultimately show ?thesis by simp
  qed
qed

lemma collect_ids_text_only:
  "map chunk_text cs = map chunk_text cs' \<Longrightarrow> collect_ids md5 cs = collect_ids md5 cs'"
proof (induction cs arbitrary: cs')
  case Nil
  then show ?case by simp
next
  case (Cons c cs)
  then obtain d ds where "cs' = d # ds" by (cases cs') auto
  with Cons show ?case by (auto split: sum.splits)
qed

lemma chunk_texts_source_free:
  "map chunk_text (split_text_into_chunks txt src cs ov) =
   map chunk_text (split_text_into_chunks txt src' cs ov')"
  by (simp add: split_text_into_chunks_refines mk_chunk_def comp_def)

text \<open>
  Claim C3. A chunk's id depends on its text only: the same content ingested under another
  source name gets the same ids. On an index that only ingestion has written, a second
  ingestion of the same file under the same source returns what the first returned and
  leaves the index as the first left it, so the upsert overwrote and duplicated nothing;
  the index then holds exactly one entry for each chunk text of the file.
\<close>

theorem ingest_twice_idempotent:
  assumes ca: "content_addressed (md5_hexdigest env) (entries c)"
    and rc: "read_content env file_bytes file_name = Inr content"
    and ing: "ingest_document env (Some c) file_bytes file_name source_name = (Inr r, Some c1)"
  shows "ingest_document env (Some c1) file_bytes file_name source_name = (Inr r, Some c1) \<and>
         content_addressed (md5_hexdigest env) (entries c1) \<and>
         list_all (\<lambda>ch. length (filter (\<lambda>e. entry_text e = chunk_text ch) (entries c1)) = 1)
           (split_text_into_chunks content source_name 1000 100) \<and>
         collect_ids (md5_hexdigest env) (split_text_into_chunks content source_name 1000 100) =
           collect_ids (md5_hexdigest env) (split_text_into_chunks content other_source 1000 100)"
proof -
  define chunks where "chunks = split_text_into_chunks content source_name 1000 100"
  define md5 where "md5 = md5_hexdigest env"
  from ing obtain ids where ids: "collect_ids md5 chunks = Inr ids"
    and up: "collection_upsert c ids (map chunk_text chunks) (map chunk_source chunks) = Inr c1"
    and r: "r = \<lparr>response_message = py_str ''Dokumen berhasil di-ingest'',
                 response_source_name = source_name, chunks_added = length chunks\<rparr>"
    by (auto simp: ingest_document_def rc Let_def chunks_def md5_def split: sum.splits)
  define bs where "bs = batch_entries ids (map chunk_text chunks) (map chunk_source chunks)"
  from up have reach: "reachable c" and ne: "ids \<noteq> []" and dids: "distinct ids"
    and c1: "c1 = c\<lparr>entries := fold upsert_entry bs (entries c)\<rparr>"
    by (auto simp: collection_upsert_batch bs_def split: if_splits)
  have all2: "list_all2 (\<lambda>ch i. generate_document_id md5 (chunk_text ch) = Inr i) chunks ids"
    using ids by (rule collect_ids_all2)
  have bids: "map entry_id bs = ids" unfolding bs_def using all2 by (rule batch_entries_ids)
  have dbs: "distinct (map entry_id bs)" using dids bids by simp
  have d0: "distinct (map entry_id (entries c))" using ca by (simp add: content_addressed_def)
  have e1: "entries c1 = fold upsert_entry bs (entries c)" by (simp add: c1)
  have d1: "distinct (map entry_id (entries c1))"
    unfolding e1 using d0 by (rule fold_upsert_distinct)
  have again: "fold upsert_entry bs (entries c1) = entries c1"
    unfolding e1 using dbs d0 by (rule fold_upsert_twice)
  have "collection_upsert c1 ids (map chunk_text chunks) (map chunk_source chunks) = Inr c1"
    using reach ne dids again by (simp add: collection_upsert_batch bs_def [symmetric] c1)
  then have second: "ingest_document env (Some c1) file_bytes file_name source_name = (Inr r, Some c1)"
    using ids r by (simp add: ingest_document_def rc Let_def chunks_def [symmetric] md5_def [symmetric])
  have hashed: "generate_document_id md5 (entry_text e) = Inr (entry_id e)" if "e \<in> set (entries c1)" for e
  proof -
    from that have "e \<in> set bs \<or> e \<in> set (entries c)"
      using fold_upsert_set [of bs "entries c"] by (auto simp: e1)
    then show ?thesis
    proof
      assume "e \<in> set bs"
      then show ?thesis using batch_entries_hashed [OF all2] by (simp add: bs_def list_all_iff)
    next
      assume "e \<in> set (entries c)"
      then show ?thesis using ca by (simp add: content_addressed_def list_all_iff md5_def)
    qed
  qed
  have ca1: "content_addressed md5 (entries c1)"
    using d1 hashed by (simp add: content_addressed_def list_all_iff)
  have one: "length (filter (\<lambda>e. entry_text e = chunk_text ch) (entries c1)) = 1"
    if "ch \<in> set chunks" for ch
  proof -
    from batch_entries_of_chunk [OF all2 that] obtain b where b: "b \<in> set bs"
      and bt: "entry_text b = chunk_text ch"
      and bi: "generate_document_id md5 (chunk_text ch) = Inr (entry_id b)"
      by (auto simp: bs_def)
    have mem: "b \<in> set (entries c1)" unfolding e1 using dbs b by (rule fold_upsert_mem)
    have "filter (\<lambda>e. entry_text e = chunk_text ch) (entries c1) = [b]"
    proof (rule filter_unique [where f = entry_id])
      show "distinct (map entry_id (entries c1))" by (rule d1)
      show "b \<in> set (entries c1)" by (rule mem)
      show "entry_text b = chunk_text ch" by (rule bt)
    next
      fix e assume "e \<in> set (entries c1)" and t: "entry_text e = chunk_text ch"
      then have "generate_document_id md5 (chunk_text ch) = Inr (entry_id e)"
        using hashed [of e] by simp
      with bi show "entry_id e = entry_id b" by simp
    qed
    then show ?thesis by simp
  qed
  have "collect_ids md5 chunks = collect_ids md5 (split_text_into_chunks content other_source 1000 100)"
    unfolding chunks_def by (rule collect_ids_text_only) (rule chunk_texts_source_free)
  with second ca1 one show ?thesis
    by (simp add: chunks_def md5_def list_all_iff)
qed

lemma example_chunks_1000:
  "split_text_into_chunks example_text example_source 1000 100 =
     [\<lparr>chunk_text = example_document, chunk_source = example_source\<rparr>]"
  by (simp add: split_text_into_chunks_def example_paragraphs emit_def example_source_def
        example_document_def py_str_def nn_def strip_def isspace_def)

lemma example_read_content:
  "read_content example_env example_text (py_str ''doc.txt'') = Inr example_text"
  by (simp add: read_content_def example_env_def py_str_def suffix_to_prefix)

lemma example_ids:
  "generate_document_id (md5_hexdigest example_env) example_document = Inr example_document"
  by (simp add: generate_document_id_def encode_utf8_def utf8_char_def example_env_def
        example_document_def py_str_def)

lemma example_first_ingestion:
  "ingest_document example_env (Some empty_collection) example_text (py_str ''doc.txt'') example_source =
     (Inr example_response, Some example_index)"
  by (simp add: ingest_document_def example_read_content example_chunks_1000 example_ids Let_def
        collection_upsert_def empty_collection_def example_index_def example_response_def)

theorem ingest_twice_idempotent_witness:
  "ingest_document example_env (Some empty_collection) example_text (py_str ''doc.txt'') example_source =
     (Inr example_response, Some example_index) \<and>
   ingest_document example_env (Some example_index) example_text (py_str ''doc.txt'') example_source =
     (Inr example_response, Some example_index) \<and>
   length (filter (\<lambda>e. entry_text e = example_document) (entries example_index)) = 1"
proof -
  have ca: "content_addressed (md5_hexdigest example_env) (entries empty_collection)"
    by (simp add: content_addressed_def empty_collection_def)
  from ingest_twice_idempotent [OF ca example_read_content example_first_ingestion]
  show ?thesis by (simp add: example_first_ingestion example_chunks_1000)
qed

section \<open>Properties of the LLM client\<close>

lemma upto_0_2: "[0..(2::int)] = [0, 1, 2]"
  by (simp add: upto.simps)

text \<open>
  Claim C1. With \<open>retries = 3\<close>, an initialised model and a delay that \<open>time.sleep\<close>
  accepts: when the first two calls of the service fail and the third answers, the
  client returns that answer; when all three fail, it raises the third call's exception.
  In both cases exactly three calls are made (the call counter grows by 3 and the trace
  gains three calls and nothing after them) and the same delay is slept between
  consecutive attempts, none after the last.
\<close>

theorem retry_budget_three:
  assumes "0 \<le> delay"
  shows "(model (llm_calls w) p = Inl e1 \<and> model (llm_calls w + 1) p = Inl e2 \<and>
          model (llm_calls w + 2) p = Inr response_text \<longrightarrow>
            call_gemini_with_retry (Some model) p 3 delay w =
              (Inr response_text,
               w\<lparr>llm_calls := llm_calls w + 3,
                 trace := trace w @ [EvGenerate p, EvSleep delay, EvGenerate p, EvSleep delay,
                                     EvGenerate p]\<rparr>)) \<and>
         (model (llm_calls w) p = Inl e1 \<and> model (llm_calls w + 1) p = Inl e2 \<and>
          model (llm_calls w + 2) p = Inl e3 \<longrightarrow>
            call_gemini_with_retry (Some model) p 3 delay w =
              (Inl e3,
               w\<lparr>llm_calls := llm_calls w + 3,
                 trace := trace w @ [EvGenerate p, EvSleep delay, EvGenerate p, EvSleep delay,
                                     EvGenerate p]\<rparr>))"
  using assms
  by (simp add: call_gemini_with_retry_def upto_0_2 generate_content_def sleep_def log_event_def)

theorem retry_budget_three_witness:
  "call_gemini_with_retry (Some flaky_llm) (CvPrompt [] [] []) 3 5 empty_world =
     (Inr (py_str ''ok''),
      \<lparr>llm_calls = 3,
       trace = [EvGenerate (CvPrompt [] [] []), EvSleep 5, EvGenerate (CvPrompt [] [] []), EvSleep 5,
                EvGenerate (CvPrompt [] [] [])]\<rparr>) \<and>
   call_gemini_with_retry (Some failing_llm) (CvPrompt [] [] []) 3 5 empty_world =
     (Inl (ExternalError 2),
      \<lparr>llm_calls = 3,
       trace = [EvGenerate (CvPrompt [] [] []), EvSleep 5, EvGenerate (CvPrompt [] [] []), EvSleep 5,
                EvGenerate (CvPrompt [] [] [])]\<rparr>)"
  using retry_budget_three [of 5 flaky_llm empty_world "CvPrompt [] [] []"
          "ExternalError 0" "ExternalError 1" "py_str ''ok''" "ExternalError 2"]
        retry_budget_three [of 5 failing_llm empty_world "CvPrompt [] [] []"
          "ExternalError 0" "ExternalError 1" "py_str ''ok''" "ExternalError 2"]
  by (simp add: flaky_llm_def failing_llm_def empty_world_def)

text \<open>
  Claim C10, as stated, fails when the model was not initialised: the guard before the
  loop raises whatever \<open>retries\<close> is.
\<close>

theorem retries_zero_uninitialised_counterexample:
  "call_gemini_with_retry None (CvPrompt [] [] []) 0 5 empty_world =
     (Inl (PlainException (py_str ''Model LLM (Gemini) tidak terinisialisasi.'')), empty_world)"
  by (simp add: call_gemini_with_retry_def)

text \<open>
  Claim C10, amended. With an initialised model and \<open>retries \<le> 0\<close> the loop body never
  runs: the client returns the empty string and leaves the world as it was, so it made
  no call to the service, slept never and raised nothing. The \<open>return ""\<close> after the loop
  is reached. With no model the guard before the loop raises, whatever the number of
  retries, the delay, the prompt and the world are, and the world stays as it was.
\<close>

theorem retries_nonpositive_returns_empty:
  "retries \<le> 0 \<Longrightarrow>
   call_gemini_with_retry (Some model) p retries delay w = (Inr [], w) \<and>
   call_gemini_with_retry None p' any_retries delay' w' =
     (Inl (PlainException (py_str ''Model LLM (Gemini) tidak terinisialisasi.'')), w')"
  by (simp add: call_gemini_with_retry_def)

theorem retries_nonpositive_returns_empty_witness:
  "call_gemini_with_retry (Some failing_llm) (CvPrompt [] [] []) 0 5 empty_world = (Inr [], empty_world) \<and>
   call_gemini_with_retry None (CvPrompt [] [] []) 3 5 empty_world =
     (Inl (PlainException (py_str ''Model LLM (Gemini) tidak terinisialisasi.'')), empty_world)"
  using retries_nonpositive_returns_empty [of 0 failing_llm "CvPrompt [] [] []" 5 empty_world
          "CvPrompt [] [] []" 3 5 empty_world]
  by simp

section \<open>Properties of parsing the LLM's answer\<close>

lemma scan_once_numeral:
  "scan_once (numeral k) s = scan_once (Suc (pred_numeral k)) s"
  by (simp only: numeral_eq_Suc)

lemma object_pairs_numeral:
  "object_pairs (numeral k) pairs s = object_pairs (Suc (pred_numeral k)) pairs s"
  by (simp only: numeral_eq_Suc)

lemma array_values_numeral:
  "array_values (numeral k) vs s = array_values (Suc (pred_numeral k)) vs s"
  by (simp only: numeral_eq_Suc)

lemmas json_eval =
  json_loads_def py_str_def skip_ws_def json_ws_def match_number_def scan_int_def
  scan_frac_def scan_exp_def is_digit_def digits_value_def decimal_value_def py_dict_def
  backslash_def regex_search_braces_def extract_json_str_def load_and_validate_def
  parse_llm_json_def float_field_def str_field_def errors_of_def

lemma parse_example_response:
  "parse_llm_json example_response_text new_CvEvaluationOutput =
   Inr \<lparr>cv_match_rate = Finite (4 / 5), cv_feedback = py_str ''ok''\<rparr>"
  by (simp add: example_response_text_def new_CvEvaluationOutput_def json_eval)

lemma parse_not_json:
  "parse_llm_json (py_str ''not json'') new_CvEvaluationOutput =
   Inl (InvalidJSONResponse ExpectingValue)"
  by (simp add: new_CvEvaluationOutput_def json_eval)

lemma parse_two_objects:
  "parse_llm_json two_objects_text new_FinalSummaryOutput = Inl (InvalidJSONResponse ExtraData)"
  by (simp add: two_objects_text_def new_FinalSummaryOutput_def json_eval)

lemma first_balanced_two_objects:
  "spec_first_balanced_object two_objects_text = Some (py_str ''{\"overall_summary\": \"fine\"}'')"
  by (simp add: two_objects_text_def py_str_def)

lemma parse_first_object:
  "parse_llm_json (py_str ''{\"overall_summary\": \"fine\"}'') new_FinalSummaryOutput =
   Inr \<lparr>overall_summary = py_str ''fine''\<rparr>"
  by (simp add: new_FinalSummaryOutput_def json_eval)

lemma parse_string_rate:
  "parse_llm_json string_rate_text new_CvEvaluationOutput =
   Inr \<lparr>cv_match_rate = Finite (4 / 5), cv_feedback = py_str ''ok''\<rparr>"
  by (simp add: string_rate_text_def new_CvEvaluationOutput_def json_eval str_as_float_def strip_def
      isspace_def ascii_lower_def)

end
